theory Spec2Isabelle
  imports Complex_Main "HOL-Library.Sublist"
begin

section \<open>Shared types (the \<open>@/types\<close> module)\<close>

text \<open>
  A JavaScript \<open>number\<close> is modelled as a real number, without NaN. The sums and
  comparisons of the pattern validator and of the coordinator are followed exactly; the
  overall confidence of the aggregator, which rounds to two decimal places, is followed
  in the arithmetic of IEEE doubles (function \<open>double\<close> below).
  The text that the OCR provider recognized, and a piece of it that a pattern matched,
  is the list of the Unicode code points of the JavaScript string. A code that is tested,
  cleaned or normalized is a list of 8-bit characters: the patterns admit only ASCII
  letters, digits and separators in it, and white space.
\<close>

type_synonym jstring = "nat list"

record BoundingBox =
  bb_x :: real
  bb_y :: real
  bb_width :: real
  bb_height :: real

datatype MonetarySource = MThumbnail | MVideoFrame

record MonetaryDetection =
  md_amount :: real
  md_currency :: string
  md_confidence :: real
  md_boundingBox :: BoundingBox
  md_source :: MonetarySource
  md_timestamp :: "real option"

record OCRResult =
  ocr_text :: jstring
  ocr_confidence :: real
  ocr_boundingBox :: BoundingBox
  ocr_monetaryValues :: "MonetaryDetection list"

datatype DetectionSource = VideoFrame | Thumbnail

record GiftCodeDetection =
  gc_code :: string
  gc_confidence :: real
  gc_boundingBox :: BoundingBox
  gc_timestamp :: real
  gc_source :: DetectionSource
  gc_rawText :: jstring
  gc_detectionMethod :: string

section \<open>Strings and the regular expressions of \<open>giftcode.ts\<close>\<close>

definition is_upper_letter :: "char \<Rightarrow> bool" where
  "is_upper_letter c \<longleftrightarrow> 65 \<le> (of_char c :: nat) \<and> (of_char c :: nat) \<le> 90"

definition is_digit :: "char \<Rightarrow> bool" where
  "is_digit c \<longleftrightarrow> 48 \<le> (of_char c :: nat) \<and> (of_char c :: nat) \<le> 57"

text \<open>The character class \<open>[A-Z0-9]\<close>.\<close>

definition is_code_char :: "char \<Rightarrow> bool" where
  "is_code_char c \<longleftrightarrow> is_upper_letter c \<or> is_digit c"

text \<open>
  The class \<open>\s\<close> on 8-bit characters: tab, line feed, vertical tab, form feed,
  carriage return, space and the no-break space.
\<close>

definition is_space :: "char \<Rightarrow> bool" where
  "is_space c \<longleftrightarrow> (9 \<le> (of_char c :: nat) \<and> (of_char c :: nat) \<le> 13)
     \<or> (of_char c :: nat) = 32 \<or> (of_char c :: nat) = 160"

text \<open>The class \<open>[-_\s]\<close> removed by \<open>code.replace(/[-_\s]/g, '')\<close>.\<close>

definition is_separator :: "char \<Rightarrow> bool" where
  "is_separator c \<longleftrightarrow> c = CHR ''-'' \<or> c = CHR ''_'' \<or> is_space c"

text \<open>
  \<open>String.prototype.toUpperCase\<close> replaces every code point of the text by the code
  points of its upper-case form, one code point at a time and without regard to its
  neighbours. The upper-case forms are those of the Unicode character database of the
  JavaScript engine; they are not part of the repository and are the parameter \<open>uc\<close>.
\<close>

definition toUpperCase :: "(nat \<Rightarrow> nat list) \<Rightarrow> jstring \<Rightarrow> jstring" where
  "toUpperCase uc s = concat (map uc s)"

text \<open>A literal of 8-bit characters as a list of code points.\<close>

definition str :: "string \<Rightarrow> jstring" where
  "str s = map of_char s"

text \<open>\<open>s.slice(a, b)\<close> for \<open>0 \<le> a \<le> b\<close>.\<close>

definition slice :: "string \<Rightarrow> nat \<Rightarrow> nat \<Rightarrow> string" where
  "slice s a b = take (b - a) (drop a s)"

fun starts_with :: "string \<Rightarrow> string \<Rightarrow> bool" where
  "starts_with s [] = True"
| "starts_with [] (p # ps) = False"
| "starts_with (c # cs) (p # ps) = (c = p \<and> starts_with cs ps)"

text \<open>\<open>s.includes(sub)\<close>.\<close>

fun str_includes :: "string \<Rightarrow> string \<Rightarrow> bool" where
  "str_includes [] sub = starts_with [] sub"
| "str_includes (c # cs) sub = (starts_with (c # cs) sub \<or> str_includes cs sub)"

text \<open>
  Each of the four patterns of \<open>detectGiftCodes\<close> is a fixed sequence of one-character
  classes, so a pattern is a list of classes and a match is a piece of the text of the
  same length.
\<close>

datatype char_class = CodeChar | Hyphen | WhiteSpace | UnderscoreOrHyphen

fun in_class :: "char_class \<Rightarrow> char \<Rightarrow> bool" where
  "in_class CodeChar c = is_code_char c"
| "in_class Hyphen c = (c = CHR ''-'')"
| "in_class WhiteSpace c = is_space c"
| "in_class UnderscoreOrHyphen c = (c = CHR ''_'' \<or> c = CHR ''-'')"

record pattern =
  pat_source :: string
  pat_classes :: "char_class list"

definition grouped :: "char_class \<Rightarrow> char_class list" where
  "grouped sep = replicate 4 CodeChar @ [sep] @ replicate 6 CodeChar @ [sep] @ replicate 4 CodeChar"

definition backslash :: char where
  "backslash = char_of (92 :: nat)"

text \<open>The array \<open>patterns\<close>, in the order of the source, each with its \<open>toString()\<close>.\<close>

definition patterns :: "pattern list" where
  "patterns =
    [\<lparr>pat_source = ''/([A-Z0-9]{4}-[A-Z0-9]{6}-[A-Z0-9]{4})/g'',
      pat_classes = grouped Hyphen\<rparr>,
     \<lparr>pat_source = ''/([A-Z0-9]{4}'' @ [backslash] @ ''s[A-Z0-9]{6}'' @ [backslash]
                      @ ''s[A-Z0-9]{4})/g'',
      pat_classes = grouped WhiteSpace\<rparr>,
     \<lparr>pat_source = ''/([A-Z0-9]{14})/g'',
      pat_classes = replicate 14 CodeChar\<rparr>,
     \<lparr>pat_source = ''/([A-Z0-9]{4}[_-][A-Z0-9]{6}[_-][A-Z0-9]{4})/g'',
      pat_classes = grouped UnderscoreOrHyphen\<rparr>]"

text \<open>The match of a pattern at the start of the text, if there is one.\<close>

fun match_here :: "char_class list \<Rightarrow> string \<Rightarrow> string option" where
  "match_here [] s = Some []"
| "match_here (k # ks) [] = None"
| "match_here (k # ks) (c # cs) =
     (if in_class k c then map_option ((#) c) (match_here ks cs) else None)"

text \<open>
  The same classes on code points. The class \<open>\s\<close> holds the white space and the line
  terminators of the language: U+0009 to U+000D, U+0020, U+00A0, U+1680, U+2000 to
  U+200A, U+2028, U+2029, U+202F, U+205F, U+3000 and U+FEFF.
\<close>

definition cp_is_code_char :: "nat \<Rightarrow> bool" where
  "cp_is_code_char c \<longleftrightarrow> (65 \<le> c \<and> c \<le> 90) \<or> (48 \<le> c \<and> c \<le> 57)"

definition cp_is_space :: "nat \<Rightarrow> bool" where
  "cp_is_space c \<longleftrightarrow> (9 \<le> c \<and> c \<le> 13) \<or> c = 32 \<or> c = 160 \<or> c = 5760
     \<or> (8192 \<le> c \<and> c \<le> 8202) \<or> c = 8232 \<or> c = 8233 \<or> c = 8239 \<or> c = 8287
     \<or> c = 12288 \<or> c = 65279"

fun cp_in_class :: "char_class \<Rightarrow> nat \<Rightarrow> bool" where
  "cp_in_class CodeChar c = cp_is_code_char c"
| "cp_in_class Hyphen c = (c = 45)"
| "cp_in_class WhiteSpace c = cp_is_space c"
| "cp_in_class UnderscoreOrHyphen c = (c = 95 \<or> c = 45)"

fun cp_match_here :: "char_class list \<Rightarrow> jstring \<Rightarrow> jstring option" where
  "cp_match_here [] s = Some []"
| "cp_match_here (k # ks) [] = None"
| "cp_match_here (k # ks) (c # cs) =
     (if cp_in_class k c then map_option ((#) c) (cp_match_here ks cs) else None)"

text \<open>
  The loop \<open>while ((match = pattern.exec(text)) !== null)\<close> of a global pattern: the
  leftmost match from \<open>lastIndex\<close> on, then the search resumes behind that match.
  The last \<open>exec\<close> returns null and resets \<open>lastIndex\<close>, so every text is scanned from
  its start. All patterns here are non-empty, so a match has at least one character.
  A pattern has no \<open>u\<close> flag and scans UTF-16 code units; every class holds only code
  points of one unit that is no surrogate, so the scan over code points finds the same
  matches.
\<close>

function exec_all :: "char_class list \<Rightarrow> jstring \<Rightarrow> jstring list" where
  "exec_all ks [] = []"
| "exec_all ks (c # cs) =
     (case cp_match_here ks (c # cs) of
        Some m \<Rightarrow> m # exec_all ks (drop (length m - 1) cs)
      | None \<Rightarrow> exec_all ks cs)"
  by pat_completeness auto
termination
  by (relation "measure (\<lambda>(ks, s). length s)") auto

text \<open>
  A match as a code: a list of 8-bit characters. A match holds characters of
  \<open>[A-Z0-9]\<close>, hyphens, underscores and white space only. White space beyond U+00FF
  becomes a space: every function that reads a code removes all white space from it
  first, or tests it against the dashed form, which has none.
\<close>

definition narrow :: "jstring \<Rightarrow> string" where
  "narrow m = map (\<lambda>c. if c < 256 then char_of c else CHR '' '') m"

section \<open>The pattern validator (\<open>GiftCodeDetectionService\<close>)\<close>

definition cleanCode :: "string \<Rightarrow> string" where
  "cleanCode code = filter (\<lambda>c. \<not> is_separator c) code"

text \<open>
  \<open>isValidAmazonGiftCode\<close>: 14 characters of \<open>[A-Z0-9]\<close> once the separators are
  removed. The excluded characters are computed and not used.
\<close>

definition isValidAmazonGiftCode :: "string \<Rightarrow> bool" where
  "isValidAmazonGiftCode code =
     (if length (cleanCode code) \<noteq> 14 then False
      else if \<not> list_all is_code_char (cleanCode code) then False
      else True)"

definition normalizeGiftCode :: "string \<Rightarrow> string" where
  "normalizeGiftCode code =
     slice (cleanCode code) 0 4 @ ''-'' @ slice (cleanCode code) 4 10 @ ''-''
       @ slice (cleanCode code) 10 14"

text \<open>\<open>/(.)\1{3,}/\<close>: a character other than a line terminator, four times in a row.\<close>

fun hasRepeatedChars :: "string \<Rightarrow> bool" where
  "hasRepeatedChars (a # b # c # d # rest) =
     ((a \<noteq> CHR 0x0A \<and> a \<noteq> CHR 0x0D \<and> a = b \<and> b = c \<and> c = d)
      \<or> hasRepeatedChars (b # c # d # rest))"
| "hasRepeatedChars _ = False"

definition hasSequential :: "string \<Rightarrow> bool" where
  "hasSequential code \<longleftrightarrow>
     str_includes code ''ABCD'' \<or> str_includes code ''1234'' \<or> str_includes code ''EFGH''"

definition hasTypicalAmazonPattern :: "string \<Rightarrow> bool" where
  "hasTypicalAmazonPattern code =
     (if hasRepeatedChars code then False
      else if hasSequential code then False
      else True)"

definition excludedChars :: "string list" where
  "excludedChars = [''0'', ''O'', ''I'', ''1'']"

text \<open>\<open>/^[A-Z0-9]{4}-[A-Z0-9]{6}-[A-Z0-9]{4}$/.test(code)\<close>.\<close>

definition is_canonical_dashed :: "string \<Rightarrow> bool" where
  "is_canonical_dashed code \<longleftrightarrow> match_here (grouped Hyphen) code = Some code"

definition clamp_confidence :: "real \<Rightarrow> real" where
  "clamp_confidence c = max (1/10) (min 1 c)"

definition excludedCount :: "string \<Rightarrow> nat" where
  "excludedCount code =
     length (filter (\<lambda>ch. str_includes (cleanCode code) ch) excludedChars)"

definition calculateCodeConfidence :: "string \<Rightarrow> real \<Rightarrow> real" where
  "calculateCodeConfidence code ocrConfidence =
     (let c1 = (if is_canonical_dashed code then ocrConfidence + 1/10 else ocrConfidence);
          c2 = c1 - real (excludedCount code) * (5/100);
          c3 = (if hasTypicalAmazonPattern (cleanCode code) then c2 + 5/100 else c2)
      in clamp_confidence c3)"

text \<open>
  \<open>getDetectionMethod\<close> looks at the text of the pattern. The range \<open>A-Z\<close> of every
  pattern contains a hyphen, so the first test succeeds for each of them.
\<close>

definition getDetectionMethod :: "pattern \<Rightarrow> string" where
  "getDetectionMethod p =
     (if str_includes (pat_source p) ''-'' then ''hyphen-separated''
      else if str_includes (pat_source p) (backslash # ''s'') then ''space-separated''
      else if str_includes (pat_source p) ''[_-]'' then ''mixed-separators''
      else if str_includes (pat_source p) ''{14}'' then ''compact-format''
      else ''unknown'')"

text \<open>
  \<open>removeDuplicateCodes\<close>: the loop over \<open>codes\<close> with the set \<open>seen\<close> and the
  list \<open>unique\<close>.
\<close>

fun removeDuplicateCodes_loop ::
  "string set \<Rightarrow> GiftCodeDetection list \<Rightarrow> GiftCodeDetection list \<Rightarrow> GiftCodeDetection list"
where
  "removeDuplicateCodes_loop seen unique [] = unique"
| "removeDuplicateCodes_loop seen unique (code # codes) =
     (let normalizedCode = normalizeGiftCode (gc_code code)
      in if normalizedCode \<notin> seen
         then removeDuplicateCodes_loop (insert normalizedCode seen) (unique @ [code]) codes
         else removeDuplicateCodes_loop seen unique codes)"

definition removeDuplicateCodes :: "GiftCodeDetection list \<Rightarrow> GiftCodeDetection list" where
  "removeDuplicateCodes codes = removeDuplicateCodes_loop {} [] codes"

text \<open>One accepted match of a pattern in an OCR result, as \<open>detectGiftCodes\<close> builds it.\<close>

definition make_detection ::
  "OCRResult \<Rightarrow> real option \<Rightarrow> pattern \<Rightarrow> jstring \<Rightarrow> GiftCodeDetection" where
  "make_detection ocrResult timestamp p m =
     (let code = narrow m
      in \<lparr>gc_code = normalizeGiftCode code,
          gc_confidence = calculateCodeConfidence code (ocr_confidence ocrResult),
          gc_boundingBox = ocr_boundingBox ocrResult,
          gc_timestamp = (case timestamp of None \<Rightarrow> 0 | Some t \<Rightarrow> t),
          gc_source = VideoFrame,
          gc_rawText = m,
          gc_detectionMethod = getDetectionMethod p\<rparr>)"

definition detect_in_result ::
  "(nat \<Rightarrow> nat list) \<Rightarrow> real option \<Rightarrow> OCRResult \<Rightarrow> GiftCodeDetection list" where
  "detect_in_result uc timestamp ocrResult =
     concat (map (\<lambda>p. map (make_detection ocrResult timestamp p)
                        (filter (\<lambda>m. isValidAmazonGiftCode (narrow m))
                           (exec_all (pat_classes p) (toUpperCase uc (ocr_text ocrResult)))))
                 patterns)"

text \<open>
  \<open>detectGiftCodes\<close>. The video identifier is only logged. On the typed inputs of the
  model nothing in the body throws, so the \<open>catch\<close> branch is not reached.
\<close>

definition detectGiftCodes ::
  "(nat \<Rightarrow> nat list) \<Rightarrow> OCRResult list \<Rightarrow> string \<Rightarrow> real option
     \<Rightarrow> GiftCodeDetection list" where
  "detectGiftCodes uc ocrResults videoId timestamp =
     removeDuplicateCodes (concat (map (detect_in_result uc timestamp) ocrResults))"

section \<open>The data of the process coordinator\<close>

datatype LaughterType = KsiLaugh | GeneralLaughter

record LaughterDetection =
  ld_startTime :: real
  ld_endTime :: real
  ld_confidence :: real
  ld_intensity :: real
  ld_type :: LaughterType

record TranscriptSegment =
  seg_text :: string
  seg_startTime :: real
  seg_endTime :: real
  seg_confidence :: real
  seg_keywords :: "string list"

record AudioFeatures =
  af_pitch :: real
  af_volume :: real
  af_speakingRate :: real
  af_emotionalTone :: string

record AudioSegment =
  as_startTime :: real
  as_endTime :: real
  as_transcription :: string
  as_confidence :: real
  as_audioFeatures :: AudioFeatures

text \<open>
  A frame analysis result. Its fields \<open>objects\<close> and \<open>faces\<close> are always the empty
  array in this code and are left out.
\<close>

record FrameAnalysisResult =
  fa_frameNumber :: nat
  fa_timestamp :: real
  fa_ocrResults :: "OCRResult list"

datatype LaughSource = FromAudio | FromTranscript

text \<open>
  The context of a laugh timestamp is a string: for an audio laugh it is built from the
  type and the intensity of the laugh, for a transcript laugh it is the first 100
  characters of the segment. The two components of the audio string are kept apart here.
\<close>

datatype LaughContext = AudioLaugh LaughterType real | SegmentText string

record LaughTimestamp =
  lt_timestamp :: real
  lt_confidence :: real
  lt_source :: LaughSource
  lt_context :: "LaughContext option"

datatype ProcessType = FullVideo | Audio | Transcript | TargetedVideo

datatype ProcessStatus = Pending | Running | Completed | Failed

text \<open>
  A process identifier is a string built from the kind of the process, the video
  identifier, for a targeted scan the laugh timestamp, and the time of creation. Its
  components are kept apart here.
\<close>

datatype ProcessId =
    FullVideoId string nat
  | AudioId string nat
  | TranscriptId string nat
  | TargetedId string real nat

text \<open>
  The field \<open>result\<close> has type \<open>any\<close>. Each kind of process stores an object with
  some of the following properties; a property that is absent is \<open>None\<close>.
\<close>

record ProcessResult =
  r_giftCodes :: "GiftCodeDetection list option"
  r_frameAnalysis :: "FrameAnalysisResult list option"
  r_laughterPeaks :: "LaughterDetection list option"
  r_suspiciousSegments :: "AudioSegment list option"
  r_segments :: "TranscriptSegment list option"
  r_laughSegments :: "TranscriptSegment list option"
  r_keywords :: "string list option"
  r_timeRange :: "(real \<times> real) option"
  r_laughTimestamp :: "LaughTimestamp option"

definition no_result :: ProcessResult where
  "no_result = \<lparr>r_giftCodes = None, r_frameAnalysis = None, r_laughterPeaks = None,
     r_suspiciousSegments = None, r_segments = None, r_laughSegments = None,
     r_keywords = None, r_timeRange = None, r_laughTimestamp = None\<rparr>"

text \<open>Times read from \<open>Date.now()\<close> are natural numbers of milliseconds.\<close>

record AnalysisProcess =
  p_id :: ProcessId
  p_type :: ProcessType
  p_status :: ProcessStatus
  p_startTime :: nat
  p_endTime :: "nat option"
  p_result :: "ProcessResult option"
  p_error :: "string option"

datatype RecommendedAction = Investigate | Monitor | Ignore

record Summary =
  sum_recommendedAction :: RecommendedAction
  sum_confidence :: real
  sum_keyFindings :: "string list"

text \<open>
  The verdict. \<open>behaviorEvents\<close> is always the empty array and the optional analysis
  fields are never set by the coordinator; they are left out.
\<close>

record VideoAnalysisResult =
  v_videoId :: string
  v_processedAt :: string
  v_processingDuration :: int
  v_giftCodes :: "GiftCodeDetection list"
  v_laughterEvents :: "LaughterDetection list"
  v_frameAnalysis :: "FrameAnalysisResult list"
  v_summary :: Summary

section \<open>The result aggregator\<close>

text \<open>\<open>array.findIndex(pred)\<close>: the first index whose element satisfies, or -1.\<close>

fun findIndex_from :: "int \<Rightarrow> ('a \<Rightarrow> bool) \<Rightarrow> 'a list \<Rightarrow> int" where
  "findIndex_from i pred [] = -1"
| "findIndex_from i pred (a # as) = (if pred a then i else findIndex_from (i + 1) pred as)"

definition findIndex :: "('a \<Rightarrow> bool) \<Rightarrow> 'a list \<Rightarrow> int" where
  "findIndex pred array = findIndex_from 0 pred array"

text \<open>
  \<open>array.filter((code, index, array) => array.findIndex(c => c.code === code.code) === index)\<close>
\<close>

definition uniqueByCode :: "GiftCodeDetection list \<Rightarrow> GiftCodeDetection list" where
  "uniqueByCode array =
     map fst (filter (\<lambda>(code, index). findIndex (\<lambda>c. gc_code c = gc_code code) array = int index)
                (zip array [0 ..< length array]))"

text \<open>The three collecting loops of \<open>aggregateResults\<close>.\<close>

definition collect ::
  "(ProcessResult \<Rightarrow> 'a list option) \<Rightarrow> AnalysisProcess list \<Rightarrow> 'a list" where
  "collect field processes =
     concat (map (\<lambda>process.
        if p_status process = Completed then
          (case p_result process of
             None \<Rightarrow> []
           | Some result \<Rightarrow> (case field result of None \<Rightarrow> [] | Some items \<Rightarrow> items))
        else []) processes)"

definition determineRecommendedAction :: "GiftCodeDetection list \<Rightarrow> RecommendedAction" where
  "determineRecommendedAction giftCodes =
     (if length giftCodes = 0 then Ignore
      else if length (filter (\<lambda>code. gc_confidence code > 8/10) giftCodes) > 0 then Investigate
      else Monitor)"

subsection \<open>The arithmetic of doubles\<close>

text \<open>
  An operation on doubles returns the double nearest to the exact result, a tie going to
  the even mantissa. \<open>double x\<close> is that double: the magnitude of \<open>x\<close> is scaled by a
  power of two to a mantissa between \<open>2 ^ 52\<close> and \<open>2 ^ 53\<close>, the mantissa is rounded to an
  integer, and the result is scaled back. The range of the exponent is not modelled (no
  overflow to infinity, no subnormal numbers); the numbers below are confidences, their
  sums and their hundredfold.
\<close>

definition round_half_even :: "real \<Rightarrow> int" where
  "round_half_even x =
     (let f = \<lfloor>x\<rfloor>; d = x - real_of_int f
      in if d < 1/2 then f else if 1/2 < d then f + 1 else if even f then f else f + 1)"

function halvings :: "real \<Rightarrow> nat" where
  "halvings x = (if x < 2 then 0 else Suc (halvings (x / 2)))"
  by pat_completeness auto
termination
proof (relation "measure (\<lambda>x. nat \<lfloor>x\<rfloor>)")
  show "wf (measure (\<lambda>x::real. nat \<lfloor>x\<rfloor>))" by simp
next
  fix x :: real
  assume "\<not> x < 2"
  then have "\<lfloor>x / 2\<rfloor> < \<lfloor>x\<rfloor>" and "0 < \<lfloor>x\<rfloor>" by linarith+
  then show "(x / 2, x) \<in> measure (\<lambda>x. nat \<lfloor>x\<rfloor>)" by simp
qed

function doublings :: "real \<Rightarrow> nat" where
  "doublings x = (if x \<le> 0 \<or> 1 \<le> x then 0 else Suc (doublings (2 * x)))"
  by pat_completeness auto
termination
proof (relation "measure (\<lambda>x. nat \<lfloor>1 / x\<rfloor>)")
  show "wf (measure (\<lambda>x::real. nat \<lfloor>1 / x\<rfloor>))" by simp
next
  fix x :: real
  assume "\<not> (x \<le> 0 \<or> 1 \<le> x)"
  then have x: "0 < x" "x < 1" by auto
  then have one: "1 < 1 / x" by simp
  define y where "y = 1 / x"
  have eq: "1 / (2 * x) = y / 2" by (simp add: y_def)
  have "1 < y" using one by (simp add: y_def)
  then have pos: "1 \<le> \<lfloor>y\<rfloor>" by (simp add: le_floor_iff)
  have "\<lfloor>y / 2\<rfloor> < \<lfloor>y\<rfloor>"
  proof (cases "y < 2")
    case True
    then have "\<lfloor>y / 2\<rfloor> \<le> 0" by (simp add: floor_le_iff)
    also have "(0::int) < 1" by simp
    also note pos
    finally show ?thesis .
  next
    case False
    then show ?thesis by linarith
  qed
  moreover have "0 < \<lfloor>y\<rfloor>" using pos by (rule less_le_trans [rotated]) simp
  ultimately have "nat \<lfloor>1 / (2 * x)\<rfloor> < nat \<lfloor>1 / x\<rfloor>" unfolding eq unfolding y_def by linarith
  then show "(2 * x, x) \<in> measure (\<lambda>x. nat \<lfloor>1 / x\<rfloor>)" by simp
qed

declare halvings.simps [simp del] doublings.simps [simp del]

definition double :: "real \<Rightarrow> real" where
  "double x =
     (if x = 0 then 0
      else if 1 \<le> \<bar>x\<bar>
        then sgn x * (real_of_int (round_half_even (\<bar>x\<bar> * 2 ^ 52 / 2 ^ halvings \<bar>x\<bar>))
                        * 2 ^ halvings \<bar>x\<bar> / 2 ^ 52)
        else sgn x * (real_of_int (round_half_even (\<bar>x\<bar> * 2 ^ 52 * 2 ^ doublings \<bar>x\<bar>))
                        / 2 ^ doublings \<bar>x\<bar> / 2 ^ 52))"

subsection \<open>The overall confidence\<close>

text \<open>
  \<open>Math.round\<close> returns the integer nearest to a double, a half going upwards; it
  operates on the double exactly. The additions of \<open>reduce\<close>, the division by the length,
  the multiplication by 100 and the division by 100 each round to a double.
\<close>

definition math_round :: "real \<Rightarrow> int" where
  "math_round v = \<lfloor>v + 1/2\<rfloor>"

definition sum_confidences :: "GiftCodeDetection list \<Rightarrow> real" where
  "sum_confidences giftCodes =
     foldl (\<lambda>sum code. double (sum + gc_confidence code)) 0 giftCodes"

definition calculateOverallConfidence :: "GiftCodeDetection list \<Rightarrow> real" where
  "calculateOverallConfidence giftCodes =
     (if length giftCodes = 0 then 0
      else let avgConfidence = double (sum_confidences giftCodes / real (length giftCodes))
           in double (real_of_int (math_round (double (avgConfidence * 100))) / 100))"

subsection \<open>The verdict\<close>

text \<open>The decimal numeral of a natural number, as a template string prints a length.\<close>

fun show_nat :: "nat \<Rightarrow> string" where
  "show_nat n =
     (if n < 10 then [char_of (48 + n)]
      else show_nat (n div 10) @ [char_of (48 + n mod 10)])"

declare show_nat.simps [simp del]

definition generateKeyFindings ::
  "GiftCodeDetection list \<Rightarrow> LaughterDetection list \<Rightarrow> string list" where
  "generateKeyFindings giftCodes laughterEvents =
     (let highConfidenceCodes = filter (\<lambda>code. gc_confidence code > 8/10) giftCodes;
          f1 = (if length giftCodes > 0
                then [''Found '' @ show_nat (length giftCodes) @ '' potential Amazon gift code(s)'']
                     @ (if length highConfidenceCodes > 0
                        then [show_nat (length highConfidenceCodes)
                                @ '' high-confidence gift code detection(s)'']
                        else [])
                else []);
          f2 = (if length laughterEvents > 0
                then f1 @ [''Detected '' @ show_nat (length laughterEvents) @ '' laughter event(s)'']
                else f1)
      in if length f2 = 0 then [''No significant findings detected''] else f2)"

text \<open>
  \<open>aggregateResults\<close>. The two readings of the clock are parameters: \<open>processedAt\<close> is
  the ISO string of the current date, \<open>now\<close> the value of \<open>Date.now()\<close>.
\<close>

definition aggregateResults ::
  "(nat \<Rightarrow> nat list) \<Rightarrow> AnalysisProcess list \<Rightarrow> string \<Rightarrow> nat \<Rightarrow> string \<Rightarrow> nat
     \<Rightarrow> VideoAnalysisResult" where
  "aggregateResults uc processes videoId startTime processedAt now =
     (let allGiftCodes = collect r_giftCodes processes;
          allLaughterEvents = collect r_laughterPeaks processes;
          allFrameAnalysis = collect r_frameAnalysis processes;
          uniqueGiftCodes = uniqueByCode (detectGiftCodes uc [] videoId None @ allGiftCodes);
          recommendedAction = determineRecommendedAction uniqueGiftCodes
      in \<lparr>v_videoId = videoId,
          v_processedAt = processedAt,
          v_processingDuration = int now - int startTime,
          v_giftCodes = uniqueGiftCodes,
          v_laughterEvents = allLaughterEvents,
          v_frameAnalysis = allFrameAnalysis,
          v_summary = \<lparr>sum_recommendedAction = recommendedAction,
                       sum_confidence = calculateOverallConfidence uniqueGiftCodes,
                       sum_keyFindings = generateKeyFindings uniqueGiftCodes allLaughterEvents\<rparr>\<rparr>)"

section \<open>The stream coordinator (\<open>ProcessCoordinator\<close>)\<close>

text \<open>A process as the coordinator creates it: pending, with no end time.\<close>

definition new_process :: "ProcessId \<Rightarrow> ProcessType \<Rightarrow> nat \<Rightarrow> AnalysisProcess" where
  "new_process ident type now =
     \<lparr>p_id = ident, p_type = type, p_status = Pending, p_startTime = now,
      p_endTime = None, p_result = None, p_error = None\<rparr>"

subsection \<open>The anchor wait\<close>

definition audio_laughTimestamps :: "LaughterDetection list \<Rightarrow> LaughTimestamp list" where
  "audio_laughTimestamps laughterPeaks =
     map (\<lambda>laugh. \<lparr>lt_timestamp = ld_startTime laugh, lt_confidence = ld_confidence laugh,
                    lt_source = FromAudio,
                    lt_context = Some (AudioLaugh (ld_type laugh) (ld_intensity laugh))\<rparr>)
         laughterPeaks"

definition transcript_laughTimestamps :: "TranscriptSegment list \<Rightarrow> LaughTimestamp list" where
  "transcript_laughTimestamps laughSegments =
     map (\<lambda>segment. \<lparr>lt_timestamp = seg_startTime segment,
                      lt_confidence = seg_confidence segment,
                      lt_source = FromTranscript,
                      lt_context = Some (SegmentText (take 100 (seg_text segment)))\<rparr>)
         laughSegments"

text \<open>\<open>process.result?.field\<close>, read as a condition and then as a list.\<close>

definition result_list :: "(ProcessResult \<Rightarrow> 'a list option) \<Rightarrow> AnalysisProcess \<Rightarrow> 'a list" where
  "result_list field process =
     (case p_result process of
        None \<Rightarrow> []
      | Some result \<Rightarrow> (case field result of None \<Rightarrow> [] | Some items \<Rightarrow> items))"

text \<open>The two pushes of the loop body, once both processes are completed.\<close>

definition extractLaughTimestamps :: "AnalysisProcess \<Rightarrow> AnalysisProcess \<Rightarrow> LaughTimestamp list" where
  "extractLaughTimestamps audioProcess transcriptProcess =
     audio_laughTimestamps (result_list r_laughterPeaks audioProcess)
     @ transcript_laughTimestamps (result_list r_laughSegments transcriptProcess)"

text \<open>
  One pass through the body of the loop of \<open>waitForLaughTimestamps\<close>: the laugh
  timestamps if the audio and the transcript process are both found and both
  completed, and nothing otherwise.
\<close>

definition anchors_if_ready :: "AnalysisProcess list \<Rightarrow> LaughTimestamp list option" where
  "anchors_if_ready processes =
     (case (find (\<lambda>p. p_type p = Audio) processes, find (\<lambda>p. p_type p = Transcript) processes) of
        (Some audioProcess, Some transcriptProcess) \<Rightarrow>
          if p_status audioProcess = Completed \<and> p_status transcriptProcess = Completed
          then Some (extractLaughTimestamps audioProcess transcriptProcess)
          else None
      | _ \<Rightarrow> None)"

definition anchorMaxWaitTime :: nat where
  "anchorMaxWaitTime = 5 * 60 * 1000"

text \<open>
  The value of \<open>Date.now() - startTime\<close> at the \<open>k\<close>-th test of the loop condition.
  Between two tests the loop sleeps for 1000 ms; \<open>delay k\<close> is the time by which the
  \<open>k\<close>-th round takes longer than that.
\<close>

primrec elapsed :: "(nat \<Rightarrow> nat) \<Rightarrow> nat \<Rightarrow> nat" where
  "elapsed delay 0 = 0"
| "elapsed delay (Suc k) = elapsed delay k + 1000 + delay k"

text \<open>
  The loop of \<open>waitForLaughTimestamps\<close> from its \<open>k\<close>-th round on. The processes are
  mutated by their own runs while the coordinator sleeps: \<open>snapshot k\<close> is the state of
  the array \<open>processes\<close> at the \<open>k\<close>-th round.
\<close>

function waitForLaughTimestamps_from ::
  "(nat \<Rightarrow> AnalysisProcess list) \<Rightarrow> (nat \<Rightarrow> nat) \<Rightarrow> nat \<Rightarrow> LaughTimestamp list" where
  "waitForLaughTimestamps_from snapshot delay k =
     (if elapsed delay k < anchorMaxWaitTime then
        (case anchors_if_ready (snapshot k) of
           Some laughTimestamps \<Rightarrow> laughTimestamps
         | None \<Rightarrow> waitForLaughTimestamps_from snapshot delay (Suc k))
      else [])"
  by pat_completeness auto
termination
  by (relation "measure (\<lambda>(snapshot, delay, k). anchorMaxWaitTime - elapsed delay k)") auto

declare waitForLaughTimestamps_from.simps [simp del]

definition waitForLaughTimestamps ::
  "(nat \<Rightarrow> AnalysisProcess list) \<Rightarrow> (nat \<Rightarrow> nat) \<Rightarrow> LaughTimestamp list" where
  "waitForLaughTimestamps snapshot delay = waitForLaughTimestamps_from snapshot delay 0"

subsection \<open>The targeted dispatch\<close>

text \<open>
  A dispatched targeted scan: the process pushed to \<open>targetedProcesses\<close> and the
  arguments of the call of \<open>runTargetedVideoAnalysis\<close>.
\<close>

record TargetedDispatch =
  td_process :: AnalysisProcess
  td_videoId :: string
  td_videoUrl :: string
  td_startTime :: real
  td_endTime :: real
  td_laughTimestamp :: LaughTimestamp

definition dispatch_one ::
  "string \<Rightarrow> string \<Rightarrow> (nat \<Rightarrow> nat) \<Rightarrow> nat \<Rightarrow> LaughTimestamp \<Rightarrow> TargetedDispatch" where
  "dispatch_one videoId videoUrl clock i laughTimestamp =
     (let startTime = lt_timestamp laughTimestamp + 5;
          endTime = lt_timestamp laughTimestamp + 60;
          targetedProcess =
            new_process (TargetedId videoId (lt_timestamp laughTimestamp) (clock (2 * i)))
              TargetedVideo (clock (2 * i + 1))
      in \<lparr>td_process = targetedProcess, td_videoId = videoId, td_videoUrl = videoUrl,
          td_startTime = startTime, td_endTime = endTime,
          td_laughTimestamp = laughTimestamp\<rparr>)"

fun startTargetedAnalysis_from ::
  "string \<Rightarrow> string \<Rightarrow> (nat \<Rightarrow> nat) \<Rightarrow> nat \<Rightarrow> LaughTimestamp list \<Rightarrow> TargetedDispatch list" where
  "startTargetedAnalysis_from videoId videoUrl clock i [] = []"
| "startTargetedAnalysis_from videoId videoUrl clock i (laughTimestamp # rest) =
     dispatch_one videoId videoUrl clock i laughTimestamp
       # startTargetedAnalysis_from videoId videoUrl clock (Suc i) rest"

definition startTargetedAnalysis ::
  "string \<Rightarrow> string \<Rightarrow> LaughTimestamp list \<Rightarrow> (nat \<Rightarrow> nat) \<Rightarrow> TargetedDispatch list" where
  "startTargetedAnalysis videoId videoUrl laughTimestamps clock =
     startTargetedAnalysis_from videoId videoUrl clock 0 laughTimestamps"

text \<open>The window of a dispatched scan.\<close>

definition window :: "TargetedDispatch \<Rightarrow> real \<times> real" where
  "window d = (td_startTime d, td_endTime d)"

text \<open>The anchor phase: the bounded wait, then the dispatch for what it returned.\<close>

definition anchor_phase ::
  "string \<Rightarrow> string \<Rightarrow> (nat \<Rightarrow> AnalysisProcess list) \<Rightarrow> (nat \<Rightarrow> nat) \<Rightarrow> (nat \<Rightarrow> nat)
     \<Rightarrow> TargetedDispatch list" where
  "anchor_phase videoId videoUrl snapshot delay clock =
     startTargetedAnalysis videoId videoUrl (waitForLaughTimestamps snapshot delay) clock"

section \<open>The detector adapters\<close>

text \<open>
  A call that may throw returns a sum: \<open>Inl\<close> with the message of the error thrown, or
  \<open>Inr\<close> with the value returned. Logging is taken not to throw.
\<close>

type_synonym 'a throwing = "string + 'a"

definition and_then :: "'a throwing \<Rightarrow> ('a \<Rightarrow> 'b throwing) \<Rightarrow> 'b throwing" where
  "and_then first rest = (case first of Inl error \<Rightarrow> Inl error | Inr v \<Rightarrow> rest v)"

definition try_catch :: "'a throwing \<Rightarrow> (string \<Rightarrow> 'a throwing) \<Rightarrow> 'a throwing" where
  "try_catch body handler = (case body of Inl error \<Rightarrow> handler error | Inr v \<Rightarrow> Inr v)"

subsection \<open>\<open>AudioAnalyzer.analyzeAudio\<close>\<close>

record AudioAnalysis =
  aa_laughterPeaks :: "LaughterDetection list"
  aa_suspiciousAudioSegments :: "AudioSegment list"

text \<open>
  The parameters are what the environment does: \<open>extractAudio\<close> is the outcome of the
  ffmpeg extraction, \<open>cleanup\<close> the outcome of removing the audio file.
  \<open>detectLaughterPeaks\<close> and \<open>analyzeSuspiciousSegments\<close> catch every error themselves
  and always return a list, so they are functions of the audio path.
\<close>

definition analyzeAudio ::
  "string throwing \<Rightarrow> (string \<Rightarrow> LaughterDetection list) \<Rightarrow> (string \<Rightarrow> AudioSegment list)
     \<Rightarrow> (string \<Rightarrow> unit throwing) \<Rightarrow> AudioAnalysis throwing" where
  "analyzeAudio extractAudio detectLaughterPeaks analyzeSuspiciousSegments cleanup =
     try_catch
       (and_then extractAudio (\<lambda>audioPath.
          let laughterPeaks = detectLaughterPeaks audioPath;
              suspiciousSegments = analyzeSuspiciousSegments audioPath
          in and_then (cleanup audioPath) (\<lambda>_.
               Inr \<lparr>aa_laughterPeaks = laughterPeaks,
                    aa_suspiciousAudioSegments = suspiciousSegments\<rparr>)))
       (\<lambda>error. Inr \<lparr>aa_laughterPeaks = [], aa_suspiciousAudioSegments = []\<rparr>)"

subsection \<open>\<open>TranscriptAnalyzer.analyzeTranscript\<close>\<close>

record Caption =
  cap_id :: "string option"
  cap_language :: "string option"

record TranscriptAnalysis =
  ta_segments :: "TranscriptSegment list"
  ta_keywords :: "string list"
  ta_suspiciousSegments :: "TranscriptSegment list"

definition is_english :: "Caption \<Rightarrow> bool" where
  "is_english c \<longleftrightarrow> cap_language c = Some ''en'' \<or> cap_language c = Some ''en-US''
     \<or> cap_language c = Some ''en-GB''"

text \<open>
  \<open>getVideoTranscript\<close>: \<open>captionsList\<close> is the outcome of the request for the list of
  captions, \<open>captionsDownload\<close> the outcome of the download of a caption. Every error is
  caught and gives null.
\<close>

definition getVideoTranscript ::
  "Caption list throwing \<Rightarrow> (string \<Rightarrow> string throwing) \<Rightarrow> string option" where
  "getVideoTranscript captionsList captionsDownload =
     (case captionsList of
        Inl error \<Rightarrow> None
      | Inr captions \<Rightarrow>
          (case captions of
             [] \<Rightarrow> None
           | first # _ \<Rightarrow>
               (let targetCaption = (case find is_english captions of
                                       Some c \<Rightarrow> c | None \<Rightarrow> first)
                in case cap_id targetCaption of
                     None \<Rightarrow> None
                   | Some ident \<Rightarrow>
                       if ident = [] then None
                       else (case captionsDownload ident of
                               Inl error \<Rightarrow> None
                             | Inr content \<Rightarrow> Some content))))"

definition findSuspiciousSegments :: "TranscriptSegment list \<Rightarrow> TranscriptSegment list" where
  "findSuspiciousSegments segments =
     filter (\<lambda>segment.
        length (seg_keywords segment) > 0 \<and>
        (let hasGiftKeyword =
               list_ex (\<lambda>k. k \<in> set [''gift'', ''amazon gift'', ''coupon'']) (seg_keywords segment);
             hasMoneyKeyword =
               list_ex (\<lambda>k. k \<in> set [''cash'', ''dollars'', ''money'', ''free money''])
                 (seg_keywords segment);
             hasActionKeyword =
               list_ex (\<lambda>k. k \<in> set [''redeem'', ''claim'', ''winner'', ''congratulations''])
                 (seg_keywords segment)
         in (hasGiftKeyword \<and> hasMoneyKeyword) \<or> (hasGiftKeyword \<and> hasActionKeyword)
            \<or> length (seg_keywords segment) \<ge> 3)) segments"

text \<open>\<open>extractKeywords\<close>: the keywords in the order in which the set first receives them.\<close>

definition extractKeywords :: "TranscriptSegment list \<Rightarrow> string list" where
  "extractKeywords segments =
     foldl (\<lambda>allKeywords keyword.
              if keyword \<in> set allKeywords then allKeywords else allKeywords @ [keyword])
       [] (concat (map seg_keywords segments))"

definition empty_transcript :: TranscriptAnalysis where
  "empty_transcript = \<lparr>ta_segments = [], ta_keywords = [], ta_suspiciousSegments = []\<rparr>"

text \<open>\<open>parseTranscript\<close> catches every error itself and always returns a list.\<close>

definition analyzeTranscript ::
  "Caption list throwing \<Rightarrow> (string \<Rightarrow> string throwing) \<Rightarrow> (string \<Rightarrow> TranscriptSegment list)
     \<Rightarrow> TranscriptAnalysis throwing" where
  "analyzeTranscript captionsList captionsDownload parseTranscript =
     try_catch
       (case getVideoTranscript captionsList captionsDownload of
          None \<Rightarrow> Inr empty_transcript
        | Some transcript \<Rightarrow>
            if length transcript = 0 then Inr empty_transcript
            else (let segments = parseTranscript transcript;
                      suspiciousSegments = findSuspiciousSegments segments;
                      keywords = extractKeywords segments
                  in Inr \<lparr>ta_segments = segments, ta_keywords = keywords,
                          ta_suspiciousSegments = suspiciousSegments\<rparr>))
       (\<lambda>error. Inr empty_transcript)"

subsection \<open>\<open>VideoAnalyzer.analyzeVideo\<close>\<close>

text \<open>
  The result of \<open>analyzeVideo\<close>; its fields \<open>laughterEvents\<close> and \<open>behaviorEvents\<close> are
  always empty and are left out.
\<close>

record VideoAnalysis =
  va_giftCodes :: "GiftCodeDetection list"
  va_frameAnalysis :: "FrameAnalysisResult list"

text \<open>\<open>VideoAnalyzer.removeDuplicateGiftCodes\<close> compares the stored codes.\<close>

fun removeDuplicateGiftCodes_loop ::
  "string set \<Rightarrow> GiftCodeDetection list \<Rightarrow> GiftCodeDetection list \<Rightarrow> GiftCodeDetection list"
where
  "removeDuplicateGiftCodes_loop seen unique [] = unique"
| "removeDuplicateGiftCodes_loop seen unique (code # codes) =
     (if gc_code code \<notin> seen
      then removeDuplicateGiftCodes_loop (insert (gc_code code) seen) (unique @ [code]) codes
      else removeDuplicateGiftCodes_loop seen unique codes)"

definition frame_codes ::
  "(nat \<Rightarrow> nat list) \<Rightarrow> string \<Rightarrow> FrameAnalysisResult list \<Rightarrow> GiftCodeDetection list" where
  "frame_codes uc videoId frameAnalysis =
     concat (map (\<lambda>frame. detectGiftCodes uc (fa_ocrResults frame) videoId
                            (Some (fa_timestamp frame)))
               frameAnalysis)"

definition extractGiftCodesFromFrames ::
  "(nat \<Rightarrow> nat list) \<Rightarrow> FrameAnalysisResult list \<Rightarrow> string \<Rightarrow> GiftCodeDetection list" where
  "extractGiftCodesFromFrames uc frameAnalysis videoId =
     removeDuplicateGiftCodes_loop {} [] (frame_codes uc videoId frameAnalysis)"

text \<open>
  \<open>downloadVideo\<close> is the outcome of the ffmpeg download, \<open>cleanup\<close> the outcome of
  removing the file. \<open>analyzeFrames\<close> catches every error itself. The \<open>catch\<close> block
  logs the error and throws it again. \<open>analyzeVideoSegment\<close> has the same shape.
\<close>

definition analyzeVideo ::
  "(nat \<Rightarrow> nat list) \<Rightarrow> string throwing \<Rightarrow> (string \<Rightarrow> FrameAnalysisResult list)
     \<Rightarrow> (string \<Rightarrow> unit throwing) \<Rightarrow> string \<Rightarrow> VideoAnalysis throwing" where
  "analyzeVideo uc downloadVideo analyzeFrames cleanup videoId =
     try_catch
       (and_then downloadVideo (\<lambda>localVideoPath.
          let frameAnalysis = analyzeFrames localVideoPath;
              giftCodes = extractGiftCodesFromFrames uc frameAnalysis videoId
          in and_then (cleanup localVideoPath) (\<lambda>_.
               Inr \<lparr>va_giftCodes = giftCodes, va_frameAnalysis = frameAnalysis\<rparr>)))
       (\<lambda>error. Inl error)"

definition VideoAnalyzer_analyzeVideoSegment ::
  "(nat \<Rightarrow> nat list) \<Rightarrow> string throwing \<Rightarrow> (string \<Rightarrow> FrameAnalysisResult list)
     \<Rightarrow> (string \<Rightarrow> unit throwing) \<Rightarrow> string \<Rightarrow> VideoAnalysis throwing" where
  "VideoAnalyzer_analyzeVideoSegment uc downloadVideoSegment analyzeFramesInSegment cleanup
     videoId =
     try_catch
       (and_then downloadVideoSegment (\<lambda>localVideoPath.
          let frameAnalysis = analyzeFramesInSegment localVideoPath;
              giftCodes = extractGiftCodesFromFrames uc frameAnalysis videoId
          in and_then (cleanup localVideoPath) (\<lambda>_.
               Inr \<lparr>va_giftCodes = giftCodes, va_frameAnalysis = frameAnalysis\<rparr>)))
       (\<lambda>error. Inl error)"

section \<open>The runs of the processes\<close>

text \<open>\<open>String.prototype.toLowerCase\<close> on ASCII text.\<close>

definition lower_char :: "char \<Rightarrow> char" where
  "lower_char c = (if is_upper_letter c then char_of ((of_char c :: nat) + 32) else c)"

definition toLowerCase :: "string \<Rightarrow> string" where
  "toLowerCase s = map lower_char s"

definition laughKeywords :: "string list" where
  "laughKeywords = [''laugh'', ''laughing'', ''lol'', ''haha'', ''hehe'', ''giggle'',
     ''chuckle'', ''funny'', ''hilarious'', ''joke'', ''comedy'']"

definition findLaughSegments :: "TranscriptSegment list \<Rightarrow> TranscriptSegment list" where
  "findLaughSegments segments =
     filter (\<lambda>segment. list_ex (\<lambda>keyword. str_includes (toLowerCase (seg_text segment)) keyword)
                         laughKeywords) segments"

text \<open>
  Each run function is an asynchronous function with one suspension, the \<open>await\<close> of its
  adapter. The statements before it and the statements after it run without
  interruption, so a run mutates its process record in two steps. The first step is the
  same for the four kinds of process. The map \<open>activeProcesses\<close> receives a reference to
  the same record and is never read; it is left out.
\<close>

definition run_begin :: "AnalysisProcess \<Rightarrow> AnalysisProcess" where
  "run_begin process = process\<lparr>p_status := Running\<rparr>"

text \<open>The \<open>catch\<close> block of the four run functions.\<close>

definition run_failed :: "AnalysisProcess \<Rightarrow> string \<Rightarrow> nat \<Rightarrow> AnalysisProcess" where
  "run_failed process message now =
     process\<lparr>p_status := Failed, p_error := Some message, p_endTime := Some now\<rparr>"

definition run_completed :: "AnalysisProcess \<Rightarrow> ProcessResult \<Rightarrow> nat \<Rightarrow> AnalysisProcess" where
  "run_completed process result now =
     process\<lparr>p_result := Some result, p_status := Completed, p_endTime := Some now\<rparr>"

text \<open>
  The second step of each run: \<open>outcome\<close> is what the awaited adapter gave, an error
  thrown or a result; \<open>now\<close> is the reading of the clock.
\<close>

definition runFullVideoAnalysis_end ::
  "(nat \<Rightarrow> nat list) \<Rightarrow> AnalysisProcess \<Rightarrow> string \<Rightarrow> VideoAnalysis throwing \<Rightarrow> nat
     \<Rightarrow> AnalysisProcess" where
  "runFullVideoAnalysis_end uc process videoId outcome now =
     (case outcome of
        Inr result \<Rightarrow>
          run_completed process
            (no_result\<lparr>r_giftCodes := Some (frame_codes uc videoId (va_frameAnalysis result)),
                       r_frameAnalysis := Some (va_frameAnalysis result)\<rparr>) now
      | Inl message \<Rightarrow> run_failed process message now)"

definition runAudioAnalysis_end ::
  "AnalysisProcess \<Rightarrow> AudioAnalysis throwing \<Rightarrow> nat \<Rightarrow> AnalysisProcess" where
  "runAudioAnalysis_end process outcome now =
     (case outcome of
        Inr result \<Rightarrow>
          run_completed process
            (no_result\<lparr>r_laughterPeaks := Some (aa_laughterPeaks result),
                       r_suspiciousSegments := Some (aa_suspiciousAudioSegments result)\<rparr>) now
      | Inl message \<Rightarrow> run_failed process message now)"

definition runTranscriptAnalysis_end ::
  "AnalysisProcess \<Rightarrow> TranscriptAnalysis throwing \<Rightarrow> nat \<Rightarrow> AnalysisProcess" where
  "runTranscriptAnalysis_end process outcome now =
     (case outcome of
        Inr result \<Rightarrow>
          run_completed process
            (no_result\<lparr>r_segments := Some (ta_segments result),
                       r_laughSegments := Some (findLaughSegments (ta_segments result)),
                       r_keywords := Some (ta_keywords result)\<rparr>) now
      | Inl message \<Rightarrow> run_failed process message now)"

text \<open>
  The coordinator's own \<open>analyzeVideoSegment\<close> catches the error of the video analyzer
  and returns empty lists.
\<close>

definition analyzeVideoSegment :: "VideoAnalysis throwing \<Rightarrow> VideoAnalysis" where
  "analyzeVideoSegment outcome =
     (case outcome of
        Inr result \<Rightarrow> \<lparr>va_giftCodes = va_giftCodes result,
                       va_frameAnalysis = va_frameAnalysis result\<rparr>
      | Inl error \<Rightarrow> \<lparr>va_giftCodes = [], va_frameAnalysis = []\<rparr>)"

definition runTargetedVideoAnalysis_end ::
  "AnalysisProcess \<Rightarrow> real \<Rightarrow> real \<Rightarrow> LaughTimestamp \<Rightarrow> VideoAnalysis throwing \<Rightarrow> nat
     \<Rightarrow> AnalysisProcess" where
  "runTargetedVideoAnalysis_end process startTime endTime laughTimestamp outcome now =
     (case outcome of
        Inr result \<Rightarrow>
          run_completed process
            (no_result\<lparr>r_giftCodes := Some (va_giftCodes result),
                       r_timeRange := Some (startTime, endTime),
                       r_laughTimestamp := Some laughTimestamp,
                       r_frameAnalysis := Some (va_frameAnalysis result)\<rparr>) now
      | Inl message \<Rightarrow> run_failed process message now)"

text \<open>
  \<open>startParallelAnalysis\<close> creates the three base processes, runs them and returns
  them once the three runs have returned. \<open>clock i\<close> is the value of the \<open>i\<close>-th
  reading of \<open>Date.now()\<close>: six readings at the creation, one at the end of each run.
\<close>

definition startParallelAnalysis ::
  "(nat \<Rightarrow> nat list) \<Rightarrow> string \<Rightarrow> (nat \<Rightarrow> nat) \<Rightarrow> VideoAnalysis throwing
     \<Rightarrow> AudioAnalysis throwing \<Rightarrow> TranscriptAnalysis throwing \<Rightarrow> AnalysisProcess list" where
  "startParallelAnalysis uc videoId clock videoOutcome audioOutcome transcriptOutcome =
     (let fullVideoProcess = new_process (FullVideoId videoId (clock 0)) FullVideo (clock 1);
          audioProcess = new_process (AudioId videoId (clock 2)) Audio (clock 3);
          transcriptProcess = new_process (TranscriptId videoId (clock 4)) Transcript (clock 5)
      in [runFullVideoAnalysis_end uc (run_begin fullVideoProcess) videoId videoOutcome (clock 6),
          runAudioAnalysis_end (run_begin audioProcess) audioOutcome (clock 7),
          runTranscriptAnalysis_end (run_begin transcriptProcess) transcriptOutcome (clock 8)])"

text \<open>
  The life of a process record. The coordinator creates the record and calls its run
  function once; the run function is then before its first statement, suspended in its
  \<open>await\<close>, or has returned. A step is one uninterrupted piece of a run function; no
  other code writes to a process record.
\<close>

datatype run_point = NotStarted | AwaitingAdapter | Returned

inductive run_step ::
  "run_point \<times> AnalysisProcess \<Rightarrow> run_point \<times> AnalysisProcess \<Rightarrow> bool" where
  start: "run_step (NotStarted, p) (AwaitingAdapter, run_begin p)"
| full_video:
    "run_step (AwaitingAdapter, p) (Returned, runFullVideoAnalysis_end uc p videoId v now)"
| audio: "run_step (AwaitingAdapter, p) (Returned, runAudioAnalysis_end p a now)"
| transcript: "run_step (AwaitingAdapter, p) (Returned, runTranscriptAnalysis_end p t now)"
| targeted:
    "run_step (AwaitingAdapter, p)
       (Returned, runTargetedVideoAnalysis_end p startTime endTime laughTimestamp v now)"

inductive reachable :: "run_point \<times> AnalysisProcess \<Rightarrow> bool" where
  created: "reachable (NotStarted, new_process ident type now)"
| step: "reachable s \<Longrightarrow> run_step s s' \<Longrightarrow> reachable s'"

definition terminal :: "AnalysisProcess \<Rightarrow> bool" where
  "terminal p \<longleftrightarrow> p_status p = Completed \<or> p_status p = Failed"

text \<open>The invariant of the data model: the end time is set exactly in a terminal state.\<close>

definition end_time_iff_terminal :: "AnalysisProcess \<Rightarrow> bool" where
  "end_time_iff_terminal p \<longleftrightarrow> (p_endTime p \<noteq> None) = terminal p"

text \<open>The invariant together with the position of the run function.\<close>

definition lifecycle_invariant :: "run_point \<times> AnalysisProcess \<Rightarrow> bool" where
  "lifecycle_invariant s \<longleftrightarrow>
     end_time_iff_terminal (snd s)
     \<and> (case fst s of
          NotStarted \<Rightarrow> p_status (snd s) = Pending
        | AwaitingAdapter \<Rightarrow> p_status (snd s) = Running
        | Returned \<Rightarrow> terminal (snd s))"

section \<open>Wordings of the specification used for comparison\<close>

text \<open>
  Deduplication as the specification words it: of the entries with the same key the
  first one is kept. An entry stays if and only if no earlier entry has its key.
\<close>

definition keep_first :: "('a \<Rightarrow> 'k) \<Rightarrow> 'a list \<Rightarrow> 'a list" where
  "keep_first key ds =
     map (\<lambda>i. ds ! i)
       (filter (\<lambda>i. \<forall>j < i. key (ds ! j) \<noteq> key (ds ! i)) [0 ..< length ds])"

definition normalized_code :: "GiftCodeDetection \<Rightarrow> string" where
  "normalized_code d = normalizeGiftCode (gc_code d)"

text \<open>
  The same deduplication as a recursion with the set of keys seen so far; it is the
  shape of the loop of \<open>removeDuplicateCodes\<close> for an arbitrary key.
\<close>

fun first_seen :: "'k set \<Rightarrow> ('a \<Rightarrow> 'k) \<Rightarrow> 'a list \<Rightarrow> 'a list" where
  "first_seen seen key [] = []"
| "first_seen seen key (d # ds) =
     (if key d \<in> seen then first_seen seen key ds
      else d # first_seen (insert (key d) seen) key ds)"

text \<open>
  Two code points that differ at most in the case of an ASCII letter: they are equal, or
  one of them is a letter a to z and the other one the letter A to Z 32 code points
  below it.
\<close>

definition same_letter :: "nat \<Rightarrow> nat \<Rightarrow> bool" where
  "same_letter a b \<longleftrightarrow>
     a = b
     \<or> (97 \<le> a \<and> a \<le> 122 \<and> a = b + 32)
     \<or> (97 \<le> b \<and> b \<le> 122 \<and> b = a + 32)"

text \<open>Two OCR results that differ at most in the case of the ASCII letters of their text.\<close>

definition differ_only_in_case :: "OCRResult \<Rightarrow> OCRResult \<Rightarrow> bool" where
  "differ_only_in_case r1 r2 \<longleftrightarrow>
     list_all2 same_letter (ocr_text r1) (ocr_text r2)
     \<and> ocr_confidence r1 = ocr_confidence r2
     \<and> ocr_boundingBox r1 = ocr_boundingBox r2
     \<and> ocr_monetaryValues r1 = ocr_monetaryValues r2"

text \<open>
  What the upper-case forms of every Unicode version do on ASCII: a letter a to z has
  the same upper-case form as the letter A to Z 32 code points below it.
\<close>

definition folds_ascii_case :: "(nat \<Rightarrow> nat list) \<Rightarrow> bool" where
  "folds_ascii_case uc \<longleftrightarrow> (\<forall>c. 97 \<le> c \<and> c \<le> 122 \<longrightarrow> uc c = uc (c - 32))"

text \<open>
  Letter case beyond ASCII. The letter k has the lower-case form U+006B and two
  upper-case forms, K (U+004B) and the Kelvin sign (U+212A): the lower-case form of both
  is U+006B. Two code points that are equal or are both forms of k differ at most in
  letter case.
\<close>

definition kelvin_sign :: nat where
  "kelvin_sign = 8490"

definition forms_of_k :: "nat \<Rightarrow> nat \<Rightarrow> bool" where
  "forms_of_k a b \<longleftrightarrow>
     a = b \<or> (a \<in> {107, 75, kelvin_sign} \<and> b \<in> {107, 75, kelvin_sign})"

definition differ_only_in_case_of_k :: "OCRResult \<Rightarrow> OCRResult \<Rightarrow> bool" where
  "differ_only_in_case_of_k r1 r2 \<longleftrightarrow>
     list_all2 forms_of_k (ocr_text r1) (ocr_text r2)
     \<and> ocr_confidence r1 = ocr_confidence r2
     \<and> ocr_boundingBox r1 = ocr_boundingBox r2
     \<and> ocr_monetaryValues r1 = ocr_monetaryValues r2"

text \<open>The arithmetic mean of the confidences.\<close>

definition mean_confidence :: "GiftCodeDetection list \<Rightarrow> real" where
  "mean_confidence ds = sum_list (map gc_confidence ds) / real (length ds)"

text \<open>The relative error of one rounding to a double is at most \<open>1 / 2 ^ 53\<close>.\<close>

definition unit_roundoff :: real where
  "unit_roundoff = 1 / 2 ^ 53"

text \<open>
  The confidence as the specification words it: the penalty is taken once for every
  occurrence of an ambiguous character in the code.
\<close>

definition ambiguous_chars :: "char set" where
  "ambiguous_chars = {CHR ''0'', CHR ''O'', CHR ''I'', CHR ''1''}"

definition ambiguousOccurrences :: "string \<Rightarrow> nat" where
  "ambiguousOccurrences code =
     length (filter (\<lambda>c. c \<in> ambiguous_chars) (cleanCode code))"

definition perOccurrenceConfidence :: "string \<Rightarrow> real \<Rightarrow> real" where
  "perOccurrenceConfidence code ocrConfidence =
     clamp_confidence (ocrConfidence + (if is_canonical_dashed code then 1/10 else 0)
        - real (ambiguousOccurrences code) * (5/100)
        + (if hasTypicalAmazonPattern (cleanCode code) then 5/100 else 0))"

section \<open>Sample data for the worked examples\<close>

definition sample_detection :: "string \<Rightarrow> real \<Rightarrow> GiftCodeDetection" where
  "sample_detection code conf =
     \<lparr>gc_code = code, gc_confidence = conf,
      gc_boundingBox = \<lparr>bb_x = 0, bb_y = 0, bb_width = 0, bb_height = 0\<rparr>,
      gc_timestamp = 0, gc_source = VideoFrame, gc_rawText = str code,
      gc_detectionMethod = ''hyphen-separated''\<rparr>"

text \<open>A completed full-video process that found the given detections.\<close>

definition scan_completed :: "GiftCodeDetection list \<Rightarrow> AnalysisProcess" where
  "scan_completed codes =
     \<lparr>p_id = FullVideoId ''v'' 0, p_type = FullVideo, p_status = Completed, p_startTime = 0,
      p_endTime = Some 1,
      p_result = Some (no_result\<lparr>r_giftCodes := Some codes, r_frameAnalysis := Some []\<rparr>),
      p_error = None\<rparr>"

definition three_detections :: "GiftCodeDetection list" where
  "three_detections =
     [sample_detection ''AAAA-222222-BBBB'' (1/2),
      sample_detection ''CCCC-222222-DDDD'' (1/2),
      sample_detection ''EEEE-222222-FFFF'' 1]"

text \<open>Five detections whose mean confidence, 0.575, lies half-way between 0.57 and 0.58.\<close>

definition half_way_detections :: "GiftCodeDetection list" where
  "half_way_detections =
     [sample_detection ''AAAA-222222-BBBB'' (1/2),
      sample_detection ''CCCC-222222-DDDD'' (1/2),
      sample_detection ''EEEE-222222-FFFF'' (1/2),
      sample_detection ''GGGG-222222-HHHH'' (1/2),
      sample_detection ''JJJJ-222222-KKKK'' (7/8)]"

text \<open>Two detections of one code and one of another, in canonical form.\<close>

definition repeated_detections :: "GiftCodeDetection list" where
  "repeated_detections =
     [sample_detection ''AAAA-112233-BBBB'' (9/10),
      sample_detection ''CCCC-222222-DDDD'' (1/2),
      sample_detection ''AAAA-112233-BBBB'' (1/2)]"

text \<open>
  The upper-case forms on the code points of the examples: the letters a to z become
  A to Z; the letters A to Z, the digits, the hyphen and the Kelvin sign are their own
  upper-case forms. Elsewhere this table is the identity.
\<close>

definition basic_latin_uc :: "nat \<Rightarrow> nat list" where
  "basic_latin_uc c = (if 97 \<le> c \<and> c \<le> 122 then [c - 32] else [c])"

definition text_with_k :: jstring where
  "text_with_k = str ''abcd-efg123-hjkl''"

definition text_with_kelvin :: jstring where
  "text_with_kelvin = str ''abcd-efg123-hj'' @ [kelvin_sign] @ str ''l''"

definition sample_ocr :: "jstring \<Rightarrow> OCRResult" where
  "sample_ocr txt =
     \<lparr>ocr_text = txt, ocr_confidence = 8/10,
      ocr_boundingBox = \<lparr>bb_x = 0, bb_y = 0, bb_width = 0, bb_height = 0\<rparr>,
      ocr_monetaryValues = []\<rparr>"

text \<open>An environment that does not change: every round sees the same value.\<close>

definition steady :: "'a \<Rightarrow> 'b \<Rightarrow> 'a" where
  "steady v k = v"

text \<open>
  The scenario of the specification: the audio process is still running, the transcript
  process is completed and has one laugh segment that starts at 42.0 s.
\<close>

definition laugh_segment_42 :: TranscriptSegment where
  "laugh_segment_42 =
     \<lparr>seg_text = ''haha that was funny'', seg_startTime = 42, seg_endTime = 45,
      seg_confidence = 8/10, seg_keywords = [''funny'']\<rparr>"

definition audio_running :: AnalysisProcess where
  "audio_running = (new_process (AudioId ''v'' 0) Audio 0)\<lparr>p_status := Running\<rparr>"

definition audio_completed :: AnalysisProcess where
  "audio_completed =
     (new_process (AudioId ''v'' 0) Audio 0)
       \<lparr>p_status := Completed, p_endTime := Some 7,
        p_result := Some (no_result\<lparr>r_laughterPeaks := Some [],
                                   r_suspiciousSegments := Some []\<rparr>)\<rparr>"

definition transcript_completed :: AnalysisProcess where
  "transcript_completed =
     (new_process (TranscriptId ''v'' 0) Transcript 0)
       \<lparr>p_status := Completed, p_endTime := Some 9,
        p_result := Some (no_result\<lparr>r_segments := Some [laugh_segment_42],
                                   r_laughSegments := Some [laugh_segment_42],
                                   r_keywords := Some [''funny'']\<rparr>)\<rparr>"

definition laugh_at_42 :: LaughTimestamp where
  "laugh_at_42 =
     \<lparr>lt_timestamp = 42, lt_confidence = 8/10, lt_source = FromTranscript,
      lt_context = Some (SegmentText ''haha that was funny'')\<rparr>"


section \<open>Evaluation of the patterns\<close>

lemma grouped_list:
  "grouped sep = [CodeChar, CodeChar, CodeChar, CodeChar, sep,
     CodeChar, CodeChar, CodeChar, CodeChar, CodeChar, CodeChar, sep,
     CodeChar, CodeChar, CodeChar, CodeChar]"
  by (simp add: grouped_def numeral_eq_Suc)

lemma compact_list:
  "replicate 14 CodeChar = [CodeChar, CodeChar, CodeChar, CodeChar,
     CodeChar, CodeChar, CodeChar, CodeChar, CodeChar, CodeChar,
     CodeChar, CodeChar, CodeChar, CodeChar]"
  by (simp add: numeral_eq_Suc)

lemmas char_class_defs =
  is_code_char_def is_upper_letter_def is_digit_def
  is_separator_def is_space_def

section \<open>The pattern validator: confidence\<close>

lemma clamp_confidence_bounds:
  "1/10 \<le> clamp_confidence c \<and> clamp_confidence c \<le> 1"
  by (simp add: clamp_confidence_def)

text \<open>
  Claim C7. Whatever the candidate code and whatever the OCR confidence, the confidence
  that \<open>calculateCodeConfidence\<close> returns is at least 0.1 and at most 1.0.
\<close>

theorem calculateCodeConfidence_clamped:
  "1/10 \<le> calculateCodeConfidence code ocrConfidence
   \<and> calculateCodeConfidence code ocrConfidence \<le> 1"
  unfolding calculateCodeConfidence_def Let_def by (rule clamp_confidence_bounds)

theorem calculateCodeConfidence_clamped_witness:
  "1/10 \<le> calculateCodeConfidence ''AAAA-222222-BBBB'' 7
   \<and> calculateCodeConfidence ''AAAA-222222-BBBB'' 7 \<le> 1"
  using calculateCodeConfidence_clamped [of "''AAAA-222222-BBBB''" 7] by simp

lemma str_includes_single: "str_includes s [c] \<longleftrightarrow> c \<in> set s"
  by (induction s) auto

lemma excludedCount_card:
  "excludedCount code = card (ambiguous_chars \<inter> set (cleanCode code))"
  by (simp add: excludedCount_def excludedChars_def str_includes_single ambiguous_chars_def)

lemma three_ones_excludedCount: "excludedCount ''A1B1-C1D2E3-F4G5'' = 1"
  by (simp add: excludedCount_def excludedChars_def cleanCode_def char_class_defs)

lemma three_ones_occurrences: "ambiguousOccurrences ''A1B1-C1D2E3-F4G5'' = 3"
  by (simp add: ambiguousOccurrences_def ambiguous_chars_def cleanCode_def char_class_defs)

lemma three_ones_dashed: "is_canonical_dashed ''A1B1-C1D2E3-F4G5''"
  by (simp add: is_canonical_dashed_def grouped_list char_class_defs)

lemma three_ones_typical: "hasTypicalAmazonPattern (cleanCode ''A1B1-C1D2E3-F4G5'')"
  by (simp add: hasTypicalAmazonPattern_def hasSequential_def cleanCode_def char_class_defs)

text \<open>
  Claim C6, as stated, fails. The code \<open>A1B1-C1D2E3-F4G5\<close> holds the ambiguous
  character 1 three times. With OCR confidence 0.5 the validator returns
  0.5 + 0.1 - 0.05 + 0.05 = 0.6: the penalty is taken once. A penalty for each of the
  three occurrences would give 0.5.
\<close>

theorem per_occurrence_penalty_counterexample:
  "ambiguousOccurrences ''A1B1-C1D2E3-F4G5'' = 3
   \<and> calculateCodeConfidence ''A1B1-C1D2E3-F4G5'' (1/2) = 6/10
   \<and> perOccurrenceConfidence ''A1B1-C1D2E3-F4G5'' (1/2) = 1/2
   \<and> calculateCodeConfidence ''A1B1-C1D2E3-F4G5'' (1/2)
       \<noteq> perOccurrenceConfidence ''A1B1-C1D2E3-F4G5'' (1/2)"
  unfolding calculateCodeConfidence_def perOccurrenceConfidence_def Let_def
  by (simp add: three_ones_excludedCount three_ones_occurrences three_ones_dashed
        three_ones_typical clamp_confidence_def)

text \<open>
  Claim C6, amended. The confidence starts from the OCR confidence, gains 0.1 when the
  match has the canonical dashed form, loses 0.05 for each of the four ambiguous
  characters 0, O, I, 1 that occurs in the code at least once (however often it occurs),
  gains 0.05 when the code shows no implausible pattern, and is clamped.
\<close>

theorem calculateCodeConfidence_formula:
  "calculateCodeConfidence code ocrConfidence =
     clamp_confidence (ocrConfidence + (if is_canonical_dashed code then 1/10 else 0)
        - real (card (ambiguous_chars \<inter> set (cleanCode code))) * (5/100)
        + (if hasTypicalAmazonPattern (cleanCode code) then 5/100 else 0))"
  unfolding calculateCodeConfidence_def Let_def excludedCount_card by simp

theorem calculateCodeConfidence_formula_witness:
  "calculateCodeConfidence ''A1B1-C1D2E3-F4G5'' (1/2) = clamp_confidence (6/10)"
  using calculateCodeConfidence_formula [of "''A1B1-C1D2E3-F4G5''" "1/2"]
  by (simp add: three_ones_dashed three_ones_typical excludedCount_card [symmetric]
        three_ones_excludedCount)

section \<open>Deduplication\<close>

lemma removeDuplicateCodes_loop_first_seen:
  "removeDuplicateCodes_loop seen unique codes = unique @ first_seen seen normalized_code codes"
  by (induction codes arbitrary: seen unique) (simp_all add: Let_def normalized_code_def)

lemma removeDuplicateCodes_first_seen:
  "removeDuplicateCodes codes = first_seen {} normalized_code codes"
  by (simp add: removeDuplicateCodes_def removeDuplicateCodes_loop_first_seen)

lemma first_seen_keys: "key ` set (first_seen seen key ds) \<inter> seen = {}"
  by (induction ds arbitrary: seen) auto

lemma first_seen_subset: "set (first_seen seen key ds) \<subseteq> set ds"
  by (induction ds arbitrary: seen) auto

lemma first_seen_distinct: "distinct (map key (first_seen seen key ds))"
proof (induction ds arbitrary: seen)
  case Nil
  then show ?case by simp
next
  case (Cons d ds)
  have "key d \<notin> key ` set (first_seen (insert (key d) seen) key ds)"
    using first_seen_keys [of key "insert (key d) seen" ds] by auto
  with Cons show ?case by simp
qed

lemma first_seen_idem:
  "S \<subseteq> seen \<Longrightarrow> first_seen S key (first_seen seen key ds) = first_seen seen key ds"
proof (induction ds arbitrary: seen S)
  case Nil
  then show ?case by simp
next
  case (Cons d ds)
  show ?case
  proof (cases "key d \<in> seen")
    case True
    with Cons show ?thesis by simp
  next
    case False
    then have "key d \<notin> S" using Cons.prems by auto
    moreover have "insert (key d) S \<subseteq> insert (key d) seen" using Cons.prems by auto
    ultimately show ?thesis using False Cons.IH by simp
  qed
qed

lemma first_seen_map:
  "(\<And>d. key (g d) = key d) \<Longrightarrow> first_seen seen key (map g ds) = map g (first_seen seen key ds)"
  by (induction ds arbitrary: seen) simp_all

lemma first_seen_index:
  "first_seen seen key ds =
     map (\<lambda>i. ds ! i)
       (filter (\<lambda>i. key (ds ! i) \<notin> seen \<and> (\<forall>j < i. key (ds ! j) \<noteq> key (ds ! i)))
          [0 ..< length ds])"
proof (induction ds arbitrary: seen)
  case Nil
  then show ?case by simp
next
  case (Cons d ds)
  have upt: "[0 ..< length (d # ds)] = 0 # map Suc [0 ..< length ds]"
    by (simp add: upt_conv_Cons map_Suc_upt del: upt_Suc)
  have all_less: "(\<forall>j < Suc i. key ((d # ds) ! j) \<noteq> k)
      \<longleftrightarrow> key d \<noteq> k \<and> (\<forall>j < i. key (ds ! j) \<noteq> k)" for i k
    by (auto simp: less_Suc_eq_0_disj)
  show ?case
  proof (cases "key d \<in> seen")
    case True
    have "filter (\<lambda>i. key ((d # ds) ! Suc i) \<notin> seen
              \<and> (\<forall>j < Suc i. key ((d # ds) ! j) \<noteq> key ((d # ds) ! Suc i))) [0 ..< length ds]
        = filter (\<lambda>i. key (ds ! i) \<notin> seen \<and> (\<forall>j < i. key (ds ! j) \<noteq> key (ds ! i)))
            [0 ..< length ds]"
      using True by (intro filter_cong refl) (auto simp: all_less)
    then show ?thesis
      using True by (simp only: upt) (simp add: filter_map comp_def Cons.IH)
  next
    case False
    have "filter (\<lambda>i. key ((d # ds) ! Suc i) \<notin> seen
              \<and> (\<forall>j < Suc i. key ((d # ds) ! j) \<noteq> key ((d # ds) ! Suc i))) [0 ..< length ds]
        = filter (\<lambda>i. key (ds ! i) \<notin> insert (key d) seen
              \<and> (\<forall>j < i. key (ds ! j) \<noteq> key (ds ! i))) [0 ..< length ds]"
      by (intro filter_cong refl) (auto simp: all_less)
    then show ?thesis
      using False by (simp only: upt) (simp add: filter_map comp_def Cons.IH)
  qed
qed

lemma removeDuplicateCodes_keep_first:
  "removeDuplicateCodes ds = keep_first normalized_code ds"
  by (simp add: removeDuplicateCodes_first_seen first_seen_index keep_first_def)

lemma findIndex_from_range:
  "0 \<le> i \<Longrightarrow> findIndex_from i pred xs = -1 \<or> i \<le> findIndex_from i pred xs"
proof (induction xs arbitrary: i)
  case Nil
  then show ?case by simp
next
  case (Cons a as)
  from Cons.IH [of "i + 1"] Cons.prems show ?case by auto
qed

lemma findIndex_from_iff:
  "0 \<le> i \<Longrightarrow> n < length xs \<Longrightarrow>
     findIndex_from i pred xs = i + int n \<longleftrightarrow> pred (xs ! n) \<and> (\<forall>j < n. \<not> pred (xs ! j))"
proof (induction xs arbitrary: i n)
  case Nil
  then show ?case by simp
next
  case (Cons a as)
  show ?case
  proof (cases "pred a")
    case True
    then show ?thesis by (cases n) auto
  next
    case False
    show ?thesis
    proof (cases n)
      case 0
      from findIndex_from_range [of "i + 1" pred as] Cons.prems
      have "findIndex_from (i + 1) pred as \<noteq> i" by auto
      with False 0 show ?thesis by simp
    next
      case (Suc m)
      have all_less: "(\<forall>j < Suc m. \<not> pred ((a # as) ! j)) \<longleftrightarrow> (\<forall>j < m. \<not> pred (as ! j))"
        using False by (auto simp: less_Suc_eq_0_disj)
      from Cons.IH [of "i + 1" m] Cons.prems Suc
      have "findIndex_from (i + 1) pred as = i + 1 + int m
          \<longleftrightarrow> pred (as ! m) \<and> (\<forall>j < m. \<not> pred (as ! j))" by simp
      with False Suc show ?thesis by (simp only: all_less) (simp add: algebra_simps)
    qed
  qed
qed

lemma zip_upt_nth: "zip xs [0 ..< length xs] = map (\<lambda>i. (xs ! i, i)) [0 ..< length xs]"
proof (rule nth_equalityI)
  show "length (zip xs [0 ..< length xs]) = length (map (\<lambda>i. (xs ! i, i)) [0 ..< length xs])"
    by simp
next
  fix i
  assume "i < length (zip xs [0 ..< length xs])"
  then show "zip xs [0 ..< length xs] ! i = map (\<lambda>i. (xs ! i, i)) [0 ..< length xs] ! i"
    by simp
qed

lemma uniqueByCode_keep_first: "uniqueByCode ds = keep_first gc_code ds"
proof -
  have "filter (\<lambda>i. findIndex (\<lambda>c. gc_code c = gc_code (ds ! i)) ds = int i) [0 ..< length ds]
      = filter (\<lambda>i. \<forall>j < i. gc_code (ds ! j) \<noteq> gc_code (ds ! i)) [0 ..< length ds]"
    by (intro filter_cong refl)
       (use findIndex_from_iff [of 0 _ ds] in \<open>simp add: findIndex_def\<close>)
  then show ?thesis
    by (simp add: uniqueByCode_def keep_first_def zip_upt_nth filter_map comp_def)
qed

lemma keep_first_cong:
  "(\<And>d. d \<in> set ds \<Longrightarrow> key d = key' d) \<Longrightarrow> keep_first key ds = keep_first key' ds"
  unfolding keep_first_def
  by (intro arg_cong [where f = "map _"] filter_cong refl) auto

lemma uniqueByCode_canonical:
  assumes "\<And>d. d \<in> set ds \<Longrightarrow> normalized_code d = gc_code d"
  shows "uniqueByCode ds = removeDuplicateCodes ds"
  using keep_first_cong [of ds normalized_code gc_code] assms
  by (simp add: uniqueByCode_keep_first removeDuplicateCodes_keep_first)

lemma removeDuplicateCodes_subset: "set (removeDuplicateCodes ds) \<subseteq> set ds"
  by (simp add: removeDuplicateCodes_first_seen first_seen_subset)

lemma removeDuplicateCodes_distinct: "distinct (map normalized_code (removeDuplicateCodes ds))"
  by (simp add: removeDuplicateCodes_first_seen first_seen_distinct)

lemma removeDuplicateCodes_idem:
  "removeDuplicateCodes (removeDuplicateCodes ds) = removeDuplicateCodes ds"
  by (simp add: removeDuplicateCodes_first_seen first_seen_idem)

lemma removeDuplicateCodes_map:
  "(\<And>d. gc_code (g d) = gc_code d) \<Longrightarrow>
     removeDuplicateCodes (map g ds) = map g (removeDuplicateCodes ds)"
  by (simp add: removeDuplicateCodes_first_seen first_seen_map normalized_code_def)


lemma cleanCode_idem: "cleanCode (cleanCode code) = cleanCode code"
  by (simp add: cleanCode_def)

lemma cleanCode_slice: "cleanCode (slice (cleanCode code) a b) = slice (cleanCode code) a b"
proof -
  have "set (slice (cleanCode code) a b) \<subseteq> set (cleanCode code)"
    unfolding slice_def by (meson set_take_subset set_drop_subset subset_trans)
  then have "\<forall>c \<in> set (slice (cleanCode code) a b). \<not> is_separator c"
    by (auto simp: cleanCode_def)
  then show ?thesis
    unfolding cleanCode_def [of "slice _ _ _"] by (simp add: filter_id_conv)
qed

lemma separators_cleaned: "cleanCode ''-'' = []"
  by (simp add: cleanCode_def is_separator_def)

lemma cleanCode_normalizeGiftCode: "cleanCode (normalizeGiftCode code) = take 14 (cleanCode code)"
proof -
  have app: "cleanCode (u @ v) = cleanCode u @ cleanCode v" for u v
    by (simp add: cleanCode_def)
  have hyphen: "cleanCode (CHR ''-'' # u) = cleanCode u" for u
    by (simp add: cleanCode_def is_separator_def)
  have "take (4 + (6 + 4)) (cleanCode code)
      = take 4 (cleanCode code) @ take 6 (drop 4 (cleanCode code))
          @ take 4 (drop 10 (cleanCode code))"
    by (simp only: take_add drop_drop) simp
  moreover have "cleanCode (normalizeGiftCode code)
      = slice (cleanCode code) 0 4 @ slice (cleanCode code) 4 10 @ slice (cleanCode code) 10 14"
    by (simp add: normalizeGiftCode_def app hyphen cleanCode_slice)
  ultimately show ?thesis
    by (simp add: slice_def)
qed

lemma normalizeGiftCode_idem:
  "normalizeGiftCode (normalizeGiftCode code) = normalizeGiftCode code"
  unfolding normalizeGiftCode_def [of "normalizeGiftCode code"] cleanCode_normalizeGiftCode
  by (simp add: normalizeGiftCode_def slice_def drop_take min_def)

lemma detect_in_result_canonical:
  "d \<in> set (detect_in_result uc timestamp r) \<Longrightarrow> normalized_code d = gc_code d"
  by (auto simp: detect_in_result_def make_detection_def Let_def normalized_code_def
        normalizeGiftCode_idem)

lemma detectGiftCodes_canonical:
  "d \<in> set (detectGiftCodes uc ocrResults videoId timestamp) \<Longrightarrow> normalized_code d = gc_code d"
  using removeDuplicateCodes_subset [of "concat (map (detect_in_result uc timestamp) ocrResults)"]
  by (auto simp: detectGiftCodes_def dest: detect_in_result_canonical)

text \<open>
  Claim C4. For every list of detections the validator's \<open>removeDuplicateCodes\<close>
  returns a list in which no two entries have the same normalized code, returns its
  argument unchanged when applied to its own result, keeps exactly the entries that no
  earlier entry with the same normalized code precedes (the first occurrence), and
  commutes with any change of confidence, timestamp and provenance. The aggregator
  compares the code fields; by the invariant of the data model a detection stores its
  code in normalized form (\<open>detectGiftCodes_canonical\<close>: the validator, the only
  producer of detections, establishes it), and for every list of such detections the
  aggregator's filter has the same four properties.
\<close>

theorem deduplication_by_normalized_code:
  "distinct (map normalized_code (removeDuplicateCodes ds))
   \<and> removeDuplicateCodes (removeDuplicateCodes ds) = removeDuplicateCodes ds
   \<and> removeDuplicateCodes ds = keep_first normalized_code ds
   \<and> removeDuplicateCodes
        (map (\<lambda>d. d\<lparr>gc_confidence := c d, gc_timestamp := t d, gc_source := s d\<rparr>) ds)
      = map (\<lambda>d. d\<lparr>gc_confidence := c d, gc_timestamp := t d, gc_source := s d\<rparr>)
          (removeDuplicateCodes ds)
   \<and> ((\<forall>d \<in> set ds. normalized_code d = gc_code d) \<longrightarrow>
        distinct (map normalized_code (uniqueByCode ds))
        \<and> uniqueByCode (uniqueByCode ds) = uniqueByCode ds
        \<and> uniqueByCode ds = keep_first normalized_code ds
        \<and> uniqueByCode
             (map (\<lambda>d. d\<lparr>gc_confidence := c d, gc_timestamp := t d, gc_source := s d\<rparr>) ds)
           = map (\<lambda>d. d\<lparr>gc_confidence := c d, gc_timestamp := t d, gc_source := s d\<rparr>)
               (uniqueByCode ds))"
proof -
  let ?g = "\<lambda>d. d\<lparr>gc_confidence := c d, gc_timestamp := t d, gc_source := s d\<rparr>"
  have validator_map: "removeDuplicateCodes (map ?g ds) = map ?g (removeDuplicateCodes ds)"
    by (rule removeDuplicateCodes_map) simp
  have aggregator: "distinct (map normalized_code (uniqueByCode ds))
        \<and> uniqueByCode (uniqueByCode ds) = uniqueByCode ds
        \<and> uniqueByCode ds = keep_first normalized_code ds
        \<and> uniqueByCode (map ?g ds) = map ?g (uniqueByCode ds)"
    if canonical: "\<forall>d \<in> set ds. normalized_code d = gc_code d"
  proof -
    have same: "uniqueByCode ds = removeDuplicateCodes ds"
      using canonical by (intro uniqueByCode_canonical) simp
    have "\<And>d. d \<in> set (removeDuplicateCodes ds) \<Longrightarrow> normalized_code d = gc_code d"
      using canonical removeDuplicateCodes_subset [of ds] by auto
    then have again: "uniqueByCode (removeDuplicateCodes ds)
        = removeDuplicateCodes (removeDuplicateCodes ds)"
      by (rule uniqueByCode_canonical)
    have "\<And>d. d \<in> set (map ?g ds) \<Longrightarrow> normalized_code d = gc_code d"
      using canonical by (auto simp: normalized_code_def)
    then have mapped: "uniqueByCode (map ?g ds) = removeDuplicateCodes (map ?g ds)"
      by (rule uniqueByCode_canonical)
    show ?thesis
      unfolding mapped same again
      by (simp add: removeDuplicateCodes_distinct removeDuplicateCodes_idem
            removeDuplicateCodes_keep_first [symmetric] validator_map)
  qed
  have validator: "distinct (map normalized_code (removeDuplicateCodes ds))
      \<and> removeDuplicateCodes (removeDuplicateCodes ds) = removeDuplicateCodes ds
      \<and> removeDuplicateCodes ds = keep_first normalized_code ds"
    by (simp add: removeDuplicateCodes_distinct removeDuplicateCodes_idem
          removeDuplicateCodes_keep_first [symmetric])
  show ?thesis
    using validator validator_map aggregator by blast
qed

lemma repeated_canonical: "\<forall>d \<in> set repeated_detections. normalized_code d = gc_code d"
  by (simp add: repeated_detections_def sample_detection_def normalized_code_def
        normalizeGiftCode_def cleanCode_def slice_def char_class_defs)

lemma repeated_unique:
  "uniqueByCode repeated_detections =
     [sample_detection ''AAAA-112233-BBBB'' (9/10), sample_detection ''CCCC-222222-DDDD'' (1/2)]"
  by (simp add: uniqueByCode_def findIndex_def repeated_detections_def sample_detection_def
        upt_rec)

theorem deduplication_by_normalized_code_witness:
  "distinct (map normalized_code (uniqueByCode repeated_detections))
   \<and> keep_first normalized_code repeated_detections =
       [sample_detection ''AAAA-112233-BBBB'' (9/10), sample_detection ''CCCC-222222-DDDD'' (1/2)]
   \<and> removeDuplicateCodes repeated_detections =
       [sample_detection ''AAAA-112233-BBBB'' (9/10), sample_detection ''CCCC-222222-DDDD'' (1/2)]"
proof -
  note all = deduplication_by_normalized_code
    [where ds = repeated_detections and c = gc_confidence and t = gc_timestamp
       and s = gc_source]
  have "distinct (map normalized_code (uniqueByCode repeated_detections))"
    and "uniqueByCode repeated_detections = keep_first normalized_code repeated_detections"
    and "removeDuplicateCodes repeated_detections = keep_first normalized_code repeated_detections"
    using all repeated_canonical by blast+
  then show ?thesis
    using repeated_unique by simp
qed

section \<open>The result aggregator: verdict\<close>

lemma detectGiftCodes_Nil: "detectGiftCodes uc [] videoId timestamp = []"
  by (simp add: detectGiftCodes_def removeDuplicateCodes_def)

lemma v_giftCodes_aggregateResults:
  "v_giftCodes (aggregateResults uc ps vid st stamp now) = uniqueByCode (collect r_giftCodes ps)"
  by (simp add: aggregateResults_def Let_def detectGiftCodes_Nil)


lemma uniqueByCode_three: "uniqueByCode three_detections = three_detections"
  by (simp add: uniqueByCode_def findIndex_def three_detections_def sample_detection_def upt_rec)

lemma collect_scan_completed: "collect r_giftCodes [scan_completed ds] = ds"
  by (simp add: collect_def scan_completed_def no_result_def)




section \<open>The result aggregator: overall confidence\<close>

subsection \<open>The error of a rounding to a double\<close>

lemma round_half_even_near: "\<bar>real_of_int (round_half_even x) - x\<bar> \<le> 1/2"
  unfolding round_half_even_def Let_def by (auto; linarith)

lemma halvings_bound: "1 \<le> x \<Longrightarrow> 2 ^ halvings x \<le> x \<and> x < 2 * 2 ^ halvings x"
proof (induction x rule: halvings.induct)
  case (1 x)
  show ?case
  proof (cases "x < 2")
    case True
    with "1.prems" show ?thesis by (simp add: halvings.simps [of x])
  next
    case False
    then have "1 \<le> x / 2" by simp
    from "1.IH" [OF False this] False show ?thesis
      by (simp add: halvings.simps [of x])
  qed
qed

lemma doublings_bound:
  "0 < x \<Longrightarrow> x < 1 \<Longrightarrow> 1 \<le> x * 2 ^ doublings x \<and> x * 2 ^ doublings x < 2"
proof (induction x rule: doublings.induct)
  case (1 x)
  have c: "\<not> (x \<le> 0 \<or> 1 \<le> x)" using "1.prems" by simp
  show ?case
  proof (cases "2 * x < 1")
    case True
    from "1.IH" [OF c _ True] "1.prems" show ?thesis
      by (simp add: doublings.simps [of x] mult.assoc)
  next
    case False
    then have "doublings (2 * x) = 0" by (simp add: doublings.simps [of "2 * x"])
    with False "1.prems" show ?thesis by (simp add: doublings.simps [of x])
  qed
qed

lemma double_error: "\<bar>double x - x\<bar> \<le> \<bar>x\<bar> / 2 ^ 53"
proof (cases "x = 0")
  case True
  then show ?thesis by (simp add: double_def)
next
  case False
  define a where "a = \<bar>x\<bar>"
  have a: "0 < a" using False by (simp add: a_def)
  have sgn: "x = sgn x * a" by (simp add: a_def sgn_real_def)
  show ?thesis
  proof (cases "1 \<le> a")
    case True
    define h where "h = halvings a"
    define m where "m = a * 2 ^ 52 / 2 ^ h"
    have "2 ^ h \<le> a" using halvings_bound [OF True] by (simp add: h_def)
    then have m: "2 ^ 52 \<le> m" by (simp add: m_def field_simps)
    have am: "a = m * 2 ^ h / 2 ^ 52" by (simp add: m_def)
    have d: "double x = sgn x * (real_of_int (round_half_even m) * 2 ^ h / 2 ^ 52)"
      using False True by (simp add: double_def a_def [symmetric] h_def m_def)
    define c where "c = (real_of_int (round_half_even m) - m) * 2 ^ h / 2 ^ 52"
    have "x = sgn x * (m * 2 ^ h / 2 ^ 52)" using sgn am by simp
    then have "double x - x = sgn x * (real_of_int (round_half_even m) * 2 ^ h / 2 ^ 52) - sgn x * (m * 2 ^ h / 2 ^ 52)"
      using d by simp
    also have "\<dots> = sgn x * c"
      unfolding c_def by (simp only: right_diff_distrib left_diff_distrib diff_divide_distrib)
    finally have "\<bar>double x - x\<bar> = \<bar>sgn x\<bar> * \<bar>c\<bar>" by (simp only: abs_mult)
    also have "\<bar>sgn x\<bar> = 1" using False by (simp add: sgn_real_def)
    finally have "\<bar>double x - x\<bar> = \<bar>real_of_int (round_half_even m) - m\<bar> * 2 ^ h / 2 ^ 52"
      by (simp add: c_def abs_mult)
    also have "\<dots> \<le> (1/2) * 2 ^ h / 2 ^ 52"
      by (intro divide_right_mono mult_right_mono) (use round_half_even_near [of m] in simp_all)
    also have "\<dots> \<le> (m / 2 ^ 52 / 2) * 2 ^ h / 2 ^ 52"
      using m by (simp add: divide_right_mono mult_right_mono field_simps)
    also have "\<dots> = a / 2 ^ 53" by (simp add: am)
    finally show ?thesis by (simp add: a_def)
  next
    case small: False
    define h where "h = doublings a"
    define m where "m = a * 2 ^ 52 * 2 ^ h"
    have "1 \<le> a * 2 ^ h" using doublings_bound [of a] a small by (simp add: h_def)
    then have m: "2 ^ 52 \<le> m" by (simp add: m_def field_simps)
    have am: "a = m / 2 ^ h / 2 ^ 52" by (simp add: m_def)
    have d: "double x = sgn x * (real_of_int (round_half_even m) / 2 ^ h / 2 ^ 52)"
      using False small by (simp add: double_def a_def [symmetric] h_def m_def)
    define c where "c = (real_of_int (round_half_even m) - m) / 2 ^ h / 2 ^ 52"
    have "x = sgn x * (m / 2 ^ h / 2 ^ 52)" using sgn am by simp
    then have "double x - x = sgn x * (real_of_int (round_half_even m) / 2 ^ h / 2 ^ 52) - sgn x * (m / 2 ^ h / 2 ^ 52)"
      using d by simp
    also have "\<dots> = sgn x * c"
      unfolding c_def by (simp only: right_diff_distrib left_diff_distrib diff_divide_distrib)
    finally have "\<bar>double x - x\<bar> = \<bar>sgn x\<bar> * \<bar>c\<bar>" by (simp only: abs_mult)
    also have "\<bar>sgn x\<bar> = 1" using False by (simp add: sgn_real_def)
    finally have "\<bar>double x - x\<bar> = \<bar>real_of_int (round_half_even m) - m\<bar> / 2 ^ h / 2 ^ 52"
      by (simp add: c_def abs_mult)
    also have "\<dots> \<le> (1/2) / 2 ^ h / 2 ^ 52"
      by (intro divide_right_mono) (use round_half_even_near [of m] in simp_all)
    also have "\<dots> \<le> (m / 2 ^ 52 / 2) / 2 ^ h / 2 ^ 52"
      using m by (simp add: divide_right_mono field_simps)
    also have "\<dots> = a / 2 ^ 53" by (simp add: am)
    finally show ?thesis by (simp add: a_def)
  qed
qed

lemma double_between:
  assumes "0 \<le> lo" "lo \<le> x" "x \<le> hi"
  shows "(1 - unit_roundoff) * lo \<le> double x \<and> double x \<le> (1 + unit_roundoff) * hi"
proof -
  have x: "0 \<le> x" using assms by simp
  have "\<bar>double x - x\<bar> \<le> x * unit_roundoff"
    using double_error [of x] x by (simp add: unit_roundoff_def)
  then have "(1 - unit_roundoff) * x \<le> double x" and "double x \<le> (1 + unit_roundoff) * x"
    by (simp_all add: algebra_simps abs_le_iff)
  moreover have "(1 - unit_roundoff) * lo \<le> (1 - unit_roundoff) * x"
    using assms by (intro mult_left_mono) (simp_all add: unit_roundoff_def)
  moreover have "(1 + unit_roundoff) * x \<le> (1 + unit_roundoff) * hi"
    using assms by (intro mult_left_mono) (simp_all add: unit_roundoff_def)
  ultimately show ?thesis by linarith
qed

lemma sum_confidences_snoc:
  "sum_confidences (ds @ [d]) = double (sum_confidences ds + gc_confidence d)"
  by (simp add: sum_confidences_def)

lemma sum_confidences_between:
  "\<forall>d \<in> set ds. 0 \<le> gc_confidence d \<Longrightarrow>
     (1 - unit_roundoff) ^ length ds * sum_list (map gc_confidence ds) \<le> sum_confidences ds
     \<and> sum_confidences ds \<le> (1 + unit_roundoff) ^ length ds * sum_list (map gc_confidence ds)"
proof (induction ds rule: rev_induct)
  case Nil
  show ?case by (simp add: sum_confidences_def)
next
  case (snoc d ds)
  define S where "S = sum_list (map gc_confidence ds)"
  define c where "c = gc_confidence d"
  define n where "n = length ds"
  have c: "0 \<le> c" using snoc.prems by (simp add: c_def)
  have S: "0 \<le> S" unfolding S_def using snoc.prems by (intro sum_list_nonneg) auto
  have IH: "(1 - unit_roundoff) ^ n * S \<le> sum_confidences ds" "sum_confidences ds \<le> (1 + unit_roundoff) ^ n * S"
    using snoc.IH snoc.prems by (simp_all add: S_def n_def)
  have p1: "(1 - unit_roundoff) ^ n \<le> 1" by (intro power_le_one) (simp_all add: unit_roundoff_def)
  have p0: "0 \<le> (1 - unit_roundoff) ^ n" by (simp add: unit_roundoff_def)
  have q1: "1 \<le> (1 + unit_roundoff) ^ n" by (intro one_le_power) (simp add: unit_roundoff_def)
  have "(1 - unit_roundoff) ^ n * c \<le> 1 * c" using p1 c by (rule mult_right_mono)
  then have lo: "(1 - unit_roundoff) ^ n * (S + c) \<le> sum_confidences ds + c"
    using IH(1) by (simp add: algebra_simps)
  have "1 * c \<le> (1 + unit_roundoff) ^ n * c" using q1 c by (rule mult_right_mono)
  then have hi: "sum_confidences ds + c \<le> (1 + unit_roundoff) ^ n * (S + c)"
    using IH(2) by (simp add: algebra_simps)
  have nonneg: "0 \<le> (1 - unit_roundoff) ^ n * (S + c)" using p0 S c by simp
  from double_between [OF nonneg lo hi]
  show ?case
    by (simp add: sum_confidences_snoc S_def [symmetric] c_def [symmetric] n_def [symmetric]
          mult.assoc)
qed

lemma power_one_minus: "0 \<le> u \<Longrightarrow> u \<le> 1 \<Longrightarrow> 1 - real m * u \<le> (1 - u) ^ m"
  using Bernoulli_inequality [of "- u" m] by simp

lemma power_one_plus:
  assumes "0 \<le> u" "real m * u \<le> 1/2"
  shows "(1 + u) ^ m \<le> 1 + 2 * real m * u"
proof -
  have inv: "(1 + u) ^ k * (1 - real k * u) \<le> 1" if "real k * u \<le> 1" for k
    using that
  proof (induction k)
    case 0
    show ?case by simp
  next
    case (Suc k)
    have ku: "real k * u \<le> 1" using Suc.prems assms(1) by (simp add: algebra_simps) 
    have "(1 + u) * (1 - real (Suc k) * u) \<le> 1 - real k * u"
    proof -
      have "(1 + u) * (1 - real (Suc k) * u) = 1 - real k * u - real (Suc k) * u * u"
        by (simp add: algebra_simps)
      moreover have "0 \<le> real (Suc k) * u * u" using assms(1) by simp
      ultimately show ?thesis by linarith
    qed
    then have "(1 + u) ^ k * ((1 + u) * (1 - real (Suc k) * u)) \<le> (1 + u) ^ k * (1 - real k * u)"
      using assms(1) by (intro mult_left_mono) simp_all
    also have "\<dots> \<le> 1" using Suc.IH [OF ku] .
    finally show ?case by (simp add: mult_ac)
  qed
  define t where "t = real m * u"
  have t: "0 \<le> t" "t \<le> 1/2" using assms by (simp_all add: t_def)
  have "(1 + u) ^ m * (1 - t) \<le> 1" using inv [of m] t by (simp add: t_def)
  moreover have "1 \<le> (1 + 2 * t) * (1 - t)"
  proof -
    have "(1 + 2 * t) * (1 - t) = 1 + t * (1 - 2 * t)" by (simp add: algebra_simps)
    moreover have "0 \<le> t * (1 - 2 * t)" using t by simp
    ultimately show ?thesis by linarith
  qed
  ultimately have "(1 + u) ^ m * (1 - t) \<le> (1 + 2 * t) * (1 - t)" by linarith
  then have "(1 + u) ^ m \<le> 1 + 2 * t" using t by (simp add: mult_le_cancel_right)
  then show ?thesis by (simp add: t_def)
qed

lemma sum_list_confidences_le:
  "\<forall>d \<in> set ds. gc_confidence d \<le> 1 \<Longrightarrow> sum_list (map gc_confidence ds) \<le> real (length ds)"
  by (induction ds) (simp_all add: add_mono)

lemma calculateOverallConfidence_near_mean:
  assumes ne: "ds \<noteq> []" and len: "length ds < 2 ^ 32"
    and conf: "\<forall>d \<in> set ds. 0 \<le> gc_confidence d \<and> gc_confidence d \<le> 1"
  shows "\<exists>k. 0 \<le> k \<and> k \<le> 100 \<and> calculateOverallConfidence ds = double (real_of_int k / 100)
           \<and> \<bar>calculateOverallConfidence ds - mean_confidence ds\<bar>
               \<le> 1/200 + real (length ds + 3) / 2 ^ 52"
proof -
  define n where "n = length ds"
  define S where "S = sum_list (map gc_confidence ds)"
  define M where "M = S / real n"
  define s where "s = sum_confidences ds"
  define a where "a = double (s / real n)"
  define b where "b = double (a * 100)"
  define k where "k = math_round b"
  define r where "r = double (real_of_int k / 100)"
  define e where "e = real (n + 2) * unit_roundoff"
  have n: "0 < n" "n < 2 ^ 32" using ne len by (simp_all add: n_def)
  have u: "0 < unit_roundoff" "unit_roundoff \<le> 1" by (simp_all add: unit_roundoff_def)
  have r: "calculateOverallConfidence ds = r"
    using ne by (simp add: calculateOverallConfidence_def Let_def r_def k_def b_def a_def s_def n_def)
  have mean: "mean_confidence ds = M" by (simp add: mean_confidence_def M_def S_def n_def)
  have S0: "0 \<le> S" unfolding S_def using conf by (intro sum_list_nonneg) auto
  have S1: "S \<le> real n" unfolding S_def n_def using conf by (intro sum_list_confidences_le) simp
  have M: "0 \<le> M" "M \<le> 1" using S0 S1 n by (simp_all add: M_def)
  define L where "L = (\<lambda>j. (1 - unit_roundoff) ^ j)"
  define H where "H = (\<lambda>j. (1 + unit_roundoff) ^ j)"
  have L0: "0 \<le> L j" for j by (simp add: L_def unit_roundoff_def)
  have LS: "L (Suc j) = (1 - unit_roundoff) * L j" for j by (simp add: L_def)
  have HS: "H (Suc j) = (1 + unit_roundoff) * H j" for j by (simp add: H_def)
  have s: "L n * S \<le> s" "s \<le> H n * S"
    using sum_confidences_between [of ds] conf by (simp_all add: L_def H_def s_def S_def n_def)
  have sn: "L n * M \<le> s / real n" "s / real n \<le> H n * M"
    using s n by (simp_all add: M_def field_simps)
  have "0 \<le> L n * M" using L0 M by simp
  from double_between [OF this sn]
  have a: "L (Suc n) * M \<le> a" "a \<le> H (Suc n) * M"
    by (simp_all add: a_def LS HS mult.assoc)
  have a100: "L (Suc n) * M * 100 \<le> a * 100" "a * 100 \<le> H (Suc n) * M * 100"
    using a by simp_all
  have "0 \<le> L (Suc n) * M * 100" using L0 M by simp
  from double_between [OF this a100]
  have b: "L (n + 2) * M * 100 \<le> b" "b \<le> H (n + 2) * M * 100"
    by (simp_all add: b_def LS HS mult.assoc)
  have e2: "real (n + 2) * unit_roundoff \<le> 1/2"
  proof -
    have "real (n + 2) \<le> 2 ^ 32 + 2" using n by simp
    then show ?thesis by (simp add: unit_roundoff_def)
  qed
  have Lb: "1 - e \<le> L (n + 2)"
    unfolding L_def e_def using u by (intro power_one_minus) simp_all
  have "(1 + unit_roundoff) ^ (n + 2) \<le> 1 + 2 * real (n + 2) * unit_roundoff"
    using u e2 by (intro power_one_plus) simp_all
  then have Hb: "H (n + 2) \<le> 1 + 2 * e"
    unfolding H_def e_def by (simp only: mult.assoc)
  have e: "0 \<le> e" "e \<le> 1 / 1000"
  proof -
    show "0 \<le> e" by (simp add: e_def unit_roundoff_def)
    have "real (n + 2) \<le> 2 ^ 33" using n by simp
    then show "e \<le> 1 / 1000" by (simp add: e_def unit_roundoff_def)
  qed
  have "(1 - e) * (M * 100) \<le> L (n + 2) * (M * 100)"
    using Lb M by (intro mult_right_mono) simp_all
  moreover have "e * (M * 100) \<le> e * (1 * 100)"
    using e M by (intro mult_left_mono mult_right_mono) simp_all
  ultimately have b_lo: "100 * M - 100 * e \<le> b" using b(1) by (simp add: algebra_simps)
  have "H (n + 2) * (M * 100) \<le> (1 + 2 * e) * (M * 100)"
    using Hb M by (intro mult_right_mono) simp_all
  moreover have "e * (M * 100) \<le> e * (1 * 100)"
    using e M by (intro mult_left_mono mult_right_mono) simp_all
  ultimately have b_hi: "b \<le> 100 * M + 200 * e" using b(2) by (simp add: algebra_simps)
  have b0: "0 \<le> b" using b(1) L0 [of "n + 2"] M
    by (meson mult_nonneg_nonneg order_trans zero_le_numeral)
  have k: "real_of_int k \<le> b + 1/2" "b + 1/2 < real_of_int k + 1"
    unfolding k_def math_round_def by linarith+
  have k0: "0 \<le> k" using b0 by (simp add: k_def math_round_def)
  have "real_of_int k < 101" using k(1) b_hi M e by linarith
  then have k100: "k \<le> 100" by simp
  have kr: "0 \<le> real_of_int k / 100" "real_of_int k / 100 \<le> 1" using k0 k100 by simp_all
  from double_between [OF kr(1) order_refl order_refl]
  have r_between: "(1 - unit_roundoff) * (real_of_int k / 100) \<le> r" "r \<le> (1 + unit_roundoff) * (real_of_int k / 100)"
    by (simp_all add: r_def)
  have "unit_roundoff * (real_of_int k / 100) \<le> unit_roundoff * 1" using kr u by (intro mult_left_mono) simp_all
  then have r_near: "real_of_int k / 100 - unit_roundoff \<le> r" "r \<le> real_of_int k / 100 + unit_roundoff"
    using r_between by (simp_all add: algebra_simps)
  have err: "2 * e + unit_roundoff \<le> real (n + 3) / 2 ^ 52" by (simp add: e_def unit_roundoff_def field_simps)
  have "\<bar>r - M\<bar> \<le> 1/200 + 2 * e + unit_roundoff" using r_near k b_lo b_hi e by linarith
  with err have "\<bar>r - M\<bar> \<le> 1/200 + real (n + 3) / 2 ^ 52" by linarith
  with k0 k100 show ?thesis unfolding r mean by (auto simp: r_def n_def)
qed

subsection \<open>Worked examples\<close>

lemma double_values:
  "double (1/2) = 1/2"
  "double 1 = 1"
  "double (3/2) = 3/2"
  "double 2 = 2"
  "double (23/8) = 23/8"
  "double (2/3) = 6004799503160661 / 9007199254740992"
  "double (23/40) = 5179139571476070 / 9007199254740992"
  by (simp_all add: double_def round_half_even_def halvings.simps doublings.simps)

lemma double_hundredfold:
  "double (6004799503160661 / 9007199254740992 * 100) = 4691249611844266 / 70368744177664"
  "double (5179139571476070 / 9007199254740992 * 100) = 8092405580431359 / 140737488355328"
  by (simp_all add: double_def round_half_even_def halvings.simps)

lemma double_hundredfold_reduced:
  "double (150119987579016525 / 2251799813685248) = 4691249611844266 / 70368744177664"
  "double (64739244643450875 / 1125899906842624) = 8092405580431359 / 140737488355328"
  using double_hundredfold by simp_all

lemma double_hundredths:
  "double (67/100) = 6034823500676465 / 9007199254740992"
  "double (57/100) = 5134103575202365 / 9007199254740992"
  by (simp_all add: double_def round_half_even_def doublings.simps)

lemma calculateOverallConfidence_three:
  "calculateOverallConfidence three_detections = double (67/100)"
  by (simp add: calculateOverallConfidence_def sum_confidences_def three_detections_def
        sample_detection_def Let_def double_values double_hundredfold_reduced math_round_def)

text \<open>
  A mean half-way between two hundredths does not round upwards: the confidences 0.5,
  0.5, 0.5, 0.5 and 0.875 have the mean 0.575; the hundredfold of the computed mean is the
  double just below 57.5, and the overall confidence is 0.57.
\<close>

lemma calculateOverallConfidence_half_way:
  "calculateOverallConfidence half_way_detections = double (57/100)
   \<and> mean_confidence half_way_detections = 23/40
   \<and> real_of_int \<lfloor>(23/40 :: real) * 100 + 1/2\<rfloor> / 100 = 58/100"
  by (simp add: calculateOverallConfidence_def sum_confidences_def half_way_detections_def
        sample_detection_def Let_def double_values double_hundredfold_reduced math_round_def
        mean_confidence_def)

subsection \<open>The overall confidence of the verdict\<close>

text \<open>
  Claim C5, as stated, fails. Three deduplicated detections with the confidences 0.5,
  0.5 and 1.0 have the mean 2/3; the verdict's overall confidence is the double 0.67.
\<close>

theorem overall_confidence_counterexample:
  "sum_confidence
     (v_summary (aggregateResults basic_latin_uc [scan_completed three_detections] ''v'' 0 ''t'' 5))
     = double (67/100)
   \<and> mean_confidence
     (v_giftCodes (aggregateResults basic_latin_uc [scan_completed three_detections] ''v'' 0 ''t'' 5))
     = 2/3
   \<and> double (67/100) = 6034823500676465 / 9007199254740992"
  apply (simp add: aggregateResults_def Let_def detectGiftCodes_Nil collect_scan_completed
      uniqueByCode_three calculateOverallConfidence_three)
  apply (simp add: mean_confidence_def three_detections_def sample_detection_def double_hundredths)
  done

text \<open>
  Claim C5, amended. The verdict's overall confidence is 0 when the deduplicated list is
  empty. Otherwise, when the list has fewer than \<open>2 ^ 32\<close> detections (the bound of a
  JavaScript array) with confidences between 0 and 1, the overall confidence is the double
  of a whole number of hundredths between 0 and 1, namely of
  \<open>Math.round(avgConfidence * 100) / 100\<close> computed in doubles, and it differs from the
  arithmetic mean of the confidences by at most 0.005 and the rounding errors of the
  operations, which are below \<open>(n + 3) / 2 ^ 52\<close> for \<open>n\<close> detections. The direction in
  which a mean half-way between two hundredths is rounded is not fixed.
\<close>

theorem overall_confidence_rounded_mean:
  "(v_giftCodes (aggregateResults uc ps vid st stamp now) = [] \<longrightarrow>
      sum_confidence (v_summary (aggregateResults uc ps vid st stamp now)) = 0)
   \<and> (v_giftCodes (aggregateResults uc ps vid st stamp now) \<noteq> []
        \<and> length (v_giftCodes (aggregateResults uc ps vid st stamp now)) < 2 ^ 32
        \<and> (\<forall>d \<in> set (v_giftCodes (aggregateResults uc ps vid st stamp now)).
              0 \<le> gc_confidence d \<and> gc_confidence d \<le> 1) \<longrightarrow>
      (\<exists>k. 0 \<le> k \<and> k \<le> 100
          \<and> sum_confidence (v_summary (aggregateResults uc ps vid st stamp now))
              = double (real_of_int k / 100))
      \<and> \<bar>sum_confidence (v_summary (aggregateResults uc ps vid st stamp now))
           - mean_confidence (v_giftCodes (aggregateResults uc ps vid st stamp now))\<bar>
          \<le> 1/200 + real (length (v_giftCodes (aggregateResults uc ps vid st stamp now)) + 3) / 2 ^ 52)"
proof -
  let ?ds = "v_giftCodes (aggregateResults uc ps vid st stamp now)"
  have conf: "sum_confidence (v_summary (aggregateResults uc ps vid st stamp now))
      = calculateOverallConfidence ?ds"
    by (simp add: aggregateResults_def Let_def)
  have "calculateOverallConfidence [] = 0" by (simp add: calculateOverallConfidence_def)
  moreover have
    "(\<exists>k. 0 \<le> k \<and> k \<le> 100 \<and> calculateOverallConfidence ?ds = double (real_of_int k / 100))
     \<and> \<bar>calculateOverallConfidence ?ds - mean_confidence ?ds\<bar>
         \<le> 1/200 + real (length ?ds + 3) / 2 ^ 52"
    if "?ds \<noteq> []" "length ?ds < 2 ^ 32"
      "\<forall>d \<in> set ?ds. 0 \<le> gc_confidence d \<and> gc_confidence d \<le> 1"
    using calculateOverallConfidence_near_mean [OF that] by blast
  ultimately show ?thesis unfolding conf by (metis (no_types, lifting))
qed

theorem overall_confidence_rounded_mean_witness:
  "\<bar>sum_confidence
      (v_summary (aggregateResults basic_latin_uc [scan_completed three_detections] ''v'' 0 ''t'' 5))
    - 2/3\<bar> \<le> 1/200 + 6 / 2 ^ 52"
proof -
  note t = overall_confidence_rounded_mean
    [of basic_latin_uc "[scan_completed three_detections]" "''v''" 0 "''t''" 5]
  have ds: "v_giftCodes (aggregateResults basic_latin_uc [scan_completed three_detections] ''v'' 0 ''t'' 5)
      = three_detections"
    by (simp add: v_giftCodes_aggregateResults collect_scan_completed uniqueByCode_three)
  have h: "three_detections \<noteq> []" "length three_detections < 2 ^ 32"
    "\<forall>d \<in> set three_detections. 0 \<le> gc_confidence d \<and> gc_confidence d \<le> 1"
    "mean_confidence three_detections = 2/3" "real (length three_detections + 3) = 6"
    by (simp_all add: three_detections_def sample_detection_def mean_confidence_def)
  from t h show ?thesis unfolding ds by simp
qed

section \<open>Detection and letter case\<close>

lemmas cp_class_defs = cp_is_code_char_def cp_is_space_def

lemma narrow_str: "narrow (str s) = s"
  by (induction s) (simp_all add: narrow_def str_def)

lemma toUpperCase_same_letters:
  assumes "folds_ascii_case uc" and "list_all2 same_letter s1 s2"
  shows "toUpperCase uc s1 = toUpperCase uc s2"
proof -
  have one: "uc a = uc b" if "same_letter a b" for a b
    using that assms(1) unfolding same_letter_def folds_ascii_case_def
    by (metis add_diff_cancel_right')
  from assms(2) show ?thesis
    unfolding toUpperCase_def
    by (induction rule: list_all2_induct) (simp_all add: one)
qed

lemma detect_in_result_case:
  assumes "folds_ascii_case uc" and "differ_only_in_case r1 r2"
  shows "detect_in_result uc timestamp r1 = detect_in_result uc timestamp r2"
proof -
  have "make_detection r1 timestamp = make_detection r2 timestamp"
    using assms(2) by (intro ext) (simp add: make_detection_def differ_only_in_case_def)
  moreover have "toUpperCase uc (ocr_text r1) = toUpperCase uc (ocr_text r2)"
    using assms by (simp add: differ_only_in_case_def toUpperCase_same_letters)
  ultimately show ?thesis by (simp add: detect_in_result_def)
qed

lemma basic_latin_folds: "folds_ascii_case basic_latin_uc"
  by (auto simp: folds_ascii_case_def basic_latin_uc_def)

lemma upper_text_with_k: "toUpperCase basic_latin_uc text_with_k = str ''ABCD-EFG123-HJKL''"
  by (simp add: toUpperCase_def basic_latin_uc_def text_with_k_def str_def)

lemma upper_text_with_kelvin:
  "toUpperCase basic_latin_uc text_with_kelvin
     = str ''ABCD-EFG123-HJ'' @ [kelvin_sign] @ str ''L''"
  by (simp add: toUpperCase_def basic_latin_uc_def text_with_kelvin_def str_def kelvin_sign_def)

lemma upper_text_upper:
  "toUpperCase basic_latin_uc (str ''ABCD-EFG123-HJKL'') = str ''ABCD-EFG123-HJKL''"
  by (simp add: toUpperCase_def basic_latin_uc_def str_def)

lemma k_exec_dashed:
  "exec_all (grouped Hyphen) (str ''ABCD-EFG123-HJKL'') = [str ''ABCD-EFG123-HJKL'']"
  by (simp add: grouped_list cp_class_defs str_def)

lemma k_exec_spaced: "exec_all (grouped WhiteSpace) (str ''ABCD-EFG123-HJKL'') = []"
  by (simp add: grouped_list cp_class_defs str_def)

lemma k_exec_compact: "exec_all (replicate 14 CodeChar) (str ''ABCD-EFG123-HJKL'') = []"
  by (simp add: compact_list cp_class_defs str_def)

lemma k_exec_mixed:
  "exec_all (grouped UnderscoreOrHyphen) (str ''ABCD-EFG123-HJKL'') = [str ''ABCD-EFG123-HJKL'']"
  by (simp add: grouped_list cp_class_defs str_def)

lemma kelvin_exec_dashed:
  "exec_all (grouped Hyphen) (toUpperCase basic_latin_uc text_with_kelvin) = []"
  by (simp add: upper_text_with_kelvin grouped_list cp_class_defs str_def kelvin_sign_def)

lemma kelvin_exec_spaced:
  "exec_all (grouped WhiteSpace) (toUpperCase basic_latin_uc text_with_kelvin) = []"
  by (simp add: upper_text_with_kelvin grouped_list cp_class_defs str_def kelvin_sign_def)

lemma kelvin_exec_compact:
  "exec_all (replicate 14 CodeChar) (toUpperCase basic_latin_uc text_with_kelvin) = []"
  by (simp add: upper_text_with_kelvin compact_list cp_class_defs str_def kelvin_sign_def)

lemma kelvin_exec_mixed:
  "exec_all (grouped UnderscoreOrHyphen) (toUpperCase basic_latin_uc text_with_kelvin) = []"
  by (simp add: upper_text_with_kelvin grouped_list cp_class_defs str_def kelvin_sign_def)

lemma code_valid: "isValidAmazonGiftCode ''ABCD-EFG123-HJKL''"
  by (simp add: isValidAmazonGiftCode_def cleanCode_def char_class_defs)

lemma code_normalized: "normalizeGiftCode ''ABCD-EFG123-HJKL'' = ''ABCD-EFG123-HJKL''"
  by (simp add: normalizeGiftCode_def cleanCode_def slice_def char_class_defs)

lemma code_confidence: "calculateCodeConfidence ''ABCD-EFG123-HJKL'' (4/5) = 17/20"
  unfolding calculateCodeConfidence_def Let_def
  by (simp add: is_canonical_dashed_def grouped_list excludedCount_def excludedChars_def
        hasTypicalAmazonPattern_def hasSequential_def cleanCode_def char_class_defs
        clamp_confidence_def)

lemma detect_text_with_k:
  "detectGiftCodes basic_latin_uc [sample_ocr text_with_k] ''v'' (Some 3) =
    [\<lparr>gc_code = ''ABCD-EFG123-HJKL'', gc_confidence = 85/100,
      gc_boundingBox = \<lparr>bb_x = 0, bb_y = 0, bb_width = 0, bb_height = 0\<rparr>,
      gc_timestamp = 3, gc_source = VideoFrame, gc_rawText = str ''ABCD-EFG123-HJKL'',
      gc_detectionMethod = ''hyphen-separated''\<rparr>]"
  apply (simp add: detectGiftCodes_def detect_in_result_def patterns_def sample_ocr_def
      upper_text_with_k k_exec_dashed k_exec_spaced k_exec_compact k_exec_mixed narrow_str
      code_valid make_detection_def Let_def code_normalized code_confidence
      del: exec_all.simps)
  apply (simp add: removeDuplicateCodes_def code_normalized getDetectionMethod_def Let_def)
  done

lemma detect_text_with_kelvin:
  "detectGiftCodes basic_latin_uc [sample_ocr text_with_kelvin] ''v'' (Some 3) = []"
  by (simp add: detectGiftCodes_def detect_in_result_def patterns_def sample_ocr_def
      kelvin_exec_dashed kelvin_exec_spaced kelvin_exec_compact
      kelvin_exec_mixed removeDuplicateCodes_def del: exec_all.simps)

lemma k_and_kelvin: "differ_only_in_case_of_k (sample_ocr text_with_k) (sample_ocr text_with_kelvin)"
  by (simp add: differ_only_in_case_of_k_def sample_ocr_def text_with_k_def
        text_with_kelvin_def str_def forms_of_k_def kelvin_sign_def)

lemma lower_upper:
  "list_all2 differ_only_in_case [sample_ocr text_with_k] [sample_ocr (str ''ABCD-EFG123-HJKL'')]"
  by (simp add: differ_only_in_case_def sample_ocr_def same_letter_def text_with_k_def str_def)

text \<open>
  Claim C10, as stated, fails. The texts \<open>abcd-efg123-hjkl\<close> and the same text with the
  Kelvin sign in the place of the letter k differ only in the case of one letter: the
  Kelvin sign is an upper-case form of k. The engine turns k into K and leaves the
  Kelvin sign as it is, which no pattern admits: the first text gives one detection,
  the second none.
\<close>

theorem letter_case_counterexample:
  "differ_only_in_case_of_k (sample_ocr text_with_k) (sample_ocr text_with_kelvin)
   \<and> detectGiftCodes basic_latin_uc [sample_ocr text_with_k] ''v'' (Some 3) =
      [\<lparr>gc_code = ''ABCD-EFG123-HJKL'', gc_confidence = 85/100,
        gc_boundingBox = \<lparr>bb_x = 0, bb_y = 0, bb_width = 0, bb_height = 0\<rparr>,
        gc_timestamp = 3, gc_source = VideoFrame, gc_rawText = str ''ABCD-EFG123-HJKL'',
        gc_detectionMethod = ''hyphen-separated''\<rparr>]
   \<and> detectGiftCodes basic_latin_uc [sample_ocr text_with_kelvin] ''v'' (Some 3) = []"
  by (simp add: k_and_kelvin detect_text_with_k detect_text_with_kelvin)

text \<open>
  Claim C10, amended. If two lists of OCR results have the same length and corresponding
  results agree in confidence, bounding box and monetary values and differ in their
  texts at most in the case of the ASCII letters a to z, then \<open>detectGiftCodes\<close>
  returns the same list of detections for both, with the same video identifier and
  timestamp, whatever the upper-case forms of the other code points are.
\<close>

theorem detectGiftCodes_case_insensitive:
  "folds_ascii_case uc \<Longrightarrow> list_all2 differ_only_in_case rs1 rs2 \<Longrightarrow>
     detectGiftCodes uc rs1 videoId timestamp = detectGiftCodes uc rs2 videoId timestamp"
proof -
  assume folds: "folds_ascii_case uc" and "list_all2 differ_only_in_case rs1 rs2"
  from this(2)
  have "map (detect_in_result uc timestamp) rs1 = map (detect_in_result uc timestamp) rs2"
    by (induction rule: list_all2_induct) (simp_all add: detect_in_result_case [OF folds])
  then show ?thesis by (simp add: detectGiftCodes_def)
qed

theorem detectGiftCodes_case_insensitive_witness:
  "detectGiftCodes basic_latin_uc [sample_ocr (str ''ABCD-EFG123-HJKL'')] ''v'' (Some 3) =
    [\<lparr>gc_code = ''ABCD-EFG123-HJKL'', gc_confidence = 85/100,
      gc_boundingBox = \<lparr>bb_x = 0, bb_y = 0, bb_width = 0, bb_height = 0\<rparr>,
      gc_timestamp = 3, gc_source = VideoFrame, gc_rawText = str ''ABCD-EFG123-HJKL'',
      gc_detectionMethod = ''hyphen-separated''\<rparr>]"
  using detectGiftCodes_case_insensitive [OF basic_latin_folds lower_upper, of "''v''" "Some 3"]
  by (simp add: detect_text_with_k)

section \<open>The anchor wait and the targeted dispatch\<close>

lemma elapsed_mono: "j \<le> k \<Longrightarrow> elapsed delay j \<le> elapsed delay k"
  by (induction k) (auto simp: le_Suc_eq)

lemma wait_timeout:
  "(\<And>j. k \<le> j \<Longrightarrow> elapsed delay j < anchorMaxWaitTime \<Longrightarrow> anchors_if_ready (snapshot j) = None)
     \<Longrightarrow> waitForLaughTimestamps_from snapshot delay k = []"
proof (induction snapshot delay k rule: waitForLaughTimestamps_from.induct)
  case (1 snapshot delay k)
  show ?case
  proof (cases "elapsed delay k < anchorMaxWaitTime")
    case True
    then have none: "anchors_if_ready (snapshot k) = None" using "1.prems" by simp
    have "waitForLaughTimestamps_from snapshot delay (Suc k) = []"
      using "1.IH" [OF True none] "1.prems" by simp
    with True none show ?thesis by (simp add: waitForLaughTimestamps_from.simps [of _ _ k])
  next
    case False
    then show ?thesis by (simp add: waitForLaughTimestamps_from.simps [of _ _ k])
  qed
qed

lemma wait_ready:
  "k \<le> n \<Longrightarrow> elapsed delay n < anchorMaxWaitTime \<Longrightarrow> anchors_if_ready (snapshot n) = Some r
     \<Longrightarrow> (\<And>j. k \<le> j \<Longrightarrow> j < n \<Longrightarrow> anchors_if_ready (snapshot j) = None)
     \<Longrightarrow> waitForLaughTimestamps_from snapshot delay k = r"
proof (induction "n - k" arbitrary: k)
  case 0
  then have "k = n" by simp
  with 0 show ?case by (simp add: waitForLaughTimestamps_from.simps [of _ _ n])
next
  case (Suc m)
  then have lt: "k < n" by simp
  then have time: "elapsed delay k < anchorMaxWaitTime"
    using elapsed_mono [of k n delay] Suc.prems by simp
  have none: "anchors_if_ready (snapshot k) = None" using Suc.prems lt by simp
  have "waitForLaughTimestamps_from snapshot delay (Suc k) = r"
    using Suc.hyps Suc.prems lt by (intro Suc.hyps(1)) auto
  with time none show ?case by (simp add: waitForLaughTimestamps_from.simps [of _ _ k])
qed

lemma startTargetedAnalysis_from_length:
  "length (startTargetedAnalysis_from videoId videoUrl clock i lts) = length lts"
  by (induction lts arbitrary: i) simp_all

lemma startTargetedAnalysis_from_window:
  "map window (startTargetedAnalysis_from videoId videoUrl clock i lts)
     = map (\<lambda>e. (lt_timestamp e + 5, lt_timestamp e + 60)) lts"
  by (induction lts arbitrary: i) (simp_all add: window_def dispatch_one_def Let_def)

lemma startTargetedAnalysis_from_events:
  "map td_laughTimestamp (startTargetedAnalysis_from videoId videoUrl clock i lts) = lts"
  by (induction lts arbitrary: i) (simp_all add: dispatch_one_def Let_def)

lemma scenario_not_ready: "anchors_if_ready [audio_running, transcript_completed] = None"
  by (simp add: anchors_if_ready_def audio_running_def transcript_completed_def new_process_def)

lemma scenario_ready:
  "anchors_if_ready [audio_completed, transcript_completed] = Some [laugh_at_42]"
  by (simp add: anchors_if_ready_def audio_completed_def transcript_completed_def
        new_process_def extractLaughTimestamps_def result_list_def no_result_def
        audio_laughTimestamps_def transcript_laughTimestamps_def laugh_segment_42_def
        laugh_at_42_def)

text \<open>
  Claim C1, as stated, fails. In the scenario of the claim the transcript process is
  completed with one laugh segment at 42.0 s and the audio process never completes. The
  wait then runs into its ceiling and returns no laugh timestamp, and no targeted scan
  is dispatched.
\<close>

theorem partial_anchors_counterexample:
  "p_status transcript_completed = Completed
   \<and> result_list r_laughSegments transcript_completed = [laugh_segment_42]
   \<and> seg_startTime laugh_segment_42 = 42
   \<and> p_status audio_running \<noteq> Completed
   \<and> waitForLaughTimestamps (steady [audio_running, transcript_completed]) (steady 0) = []
   \<and> length (anchor_phase ''v'' ''u'' (steady [audio_running, transcript_completed]) (steady 0)
        (steady 0)) = 0"
proof -
  have "waitForLaughTimestamps (steady [audio_running, transcript_completed]) (steady 0) = []"
    unfolding waitForLaughTimestamps_def
    by (rule wait_timeout) (simp add: steady_def scenario_not_ready)
  then show ?thesis
    by (simp add: anchor_phase_def startTargetedAnalysis_def transcript_completed_def
          audio_running_def new_process_def result_list_def no_result_def laugh_segment_42_def)
qed

text \<open>
  Claim C1, amended. If no round of the bounded wait finds the audio and the transcript
  process both completed (the wait times out, also when one of the two is completed),
  the coordinator proceeds with no laugh timestamp and dispatches no targeted scan. If
  some round within the ceiling is the first to find both completed, the coordinator
  proceeds with the laugh timestamps of both processes and dispatches exactly one
  targeted scan for each of them.
\<close>

theorem anchors_need_both_completed:
  "((\<forall>k. elapsed delay k < anchorMaxWaitTime \<longrightarrow> anchors_if_ready (snapshot k) = None) \<longrightarrow>
      waitForLaughTimestamps snapshot delay = []
      \<and> anchor_phase videoId videoUrl snapshot delay clock = [])
   \<and> (elapsed delay n < anchorMaxWaitTime \<and> anchors_if_ready (snapshot n) = Some r
        \<and> (\<forall>j < n. anchors_if_ready (snapshot j) = None) \<longrightarrow>
      waitForLaughTimestamps snapshot delay = r
      \<and> map td_laughTimestamp (anchor_phase videoId videoUrl snapshot delay clock) = r
      \<and> length (anchor_phase videoId videoUrl snapshot delay clock) = length r)
   \<and> (anchors_if_ready processes = Some r \<longleftrightarrow>
        (\<exists>a t. find (\<lambda>p. p_type p = Audio) processes = Some a
           \<and> find (\<lambda>p. p_type p = Transcript) processes = Some t
           \<and> p_status a = Completed \<and> p_status t = Completed
           \<and> r = extractLaughTimestamps a t))"
proof (intro conjI impI)
  assume a: "\<forall>k. elapsed delay k < anchorMaxWaitTime \<longrightarrow> anchors_if_ready (snapshot k) = None"
  then show w: "waitForLaughTimestamps snapshot delay = []"
    unfolding waitForLaughTimestamps_def by (intro wait_timeout) simp
  show "anchor_phase videoId videoUrl snapshot delay clock = []"
    by (simp add: anchor_phase_def w startTargetedAnalysis_def)
next
  assume a: "elapsed delay n < anchorMaxWaitTime \<and> anchors_if_ready (snapshot n) = Some r
        \<and> (\<forall>j < n. anchors_if_ready (snapshot j) = None)"
  then show w: "waitForLaughTimestamps snapshot delay = r"
    unfolding waitForLaughTimestamps_def by (intro wait_ready [of 0 n]) simp_all
  show "map td_laughTimestamp (anchor_phase videoId videoUrl snapshot delay clock) = r"
    by (simp add: anchor_phase_def w startTargetedAnalysis_def startTargetedAnalysis_from_events)
  show "length (anchor_phase videoId videoUrl snapshot delay clock) = length r"
    by (simp add: anchor_phase_def w startTargetedAnalysis_def startTargetedAnalysis_from_length)
next
  show "anchors_if_ready processes = Some r \<longleftrightarrow>
        (\<exists>a t. find (\<lambda>p. p_type p = Audio) processes = Some a
           \<and> find (\<lambda>p. p_type p = Transcript) processes = Some t
           \<and> p_status a = Completed \<and> p_status t = Completed
           \<and> r = extractLaughTimestamps a t)"
    by (auto simp: anchors_if_ready_def split: option.splits)
qed

theorem anchors_need_both_completed_witness:
  "anchor_phase ''v'' ''u'' (steady [audio_running, transcript_completed]) (steady 0) (steady 0) = []
   \<and> waitForLaughTimestamps (steady [audio_completed, transcript_completed]) (steady 0)
       = [laugh_at_42]
   \<and> length (anchor_phase ''v'' ''u'' (steady [audio_completed, transcript_completed])
        (steady 0) (steady 0)) = 1"
  using anchors_need_both_completed [of "steady 0" "steady [audio_running, transcript_completed]"
          "''v''" "''u''" "steady 0" 0 "[]" "[]"]
        anchors_need_both_completed [of "steady 0" "steady [audio_completed, transcript_completed]"
          "''v''" "''u''" "steady 0" 0 "[laugh_at_42]" "[]"]
  by (simp add: steady_def scenario_not_ready scenario_ready anchorMaxWaitTime_def)

text \<open>
  Claim C2, as stated, fails. For the laugh timestamp at 42.0 s the dispatched scan has
  the window from 47.0 s to 102.0 s, not to 107.0 s.
\<close>

theorem targeted_window_counterexample:
  "lt_timestamp laugh_at_42 = 42
   \<and> map window (startTargetedAnalysis ''v'' ''u'' [laugh_at_42] (steady 0)) = [(47, 102)]
   \<and> map window (startTargetedAnalysis ''v'' ''u'' [laugh_at_42] (steady 0))
       \<noteq> [(42 + 5, 42 + 5 + 60)]"
  by (simp add: startTargetedAnalysis_def window_def dispatch_one_def Let_def laugh_at_42_def)

text \<open>
  Claim C2, amended. For every laugh timestamp \<open>t\<close> exactly one targeted scan is
  dispatched, in the order of the timestamps, and its window runs from \<open>t + 5\<close> to
  \<open>t + 60\<close> seconds: it starts 5 s after the laugh and is 55 s long. For a laugh at
  42.0 s the window is from 47.0 s to 102.0 s.
\<close>

theorem targeted_window:
  "map window (startTargetedAnalysis videoId videoUrl laughTimestamps clock)
     = map (\<lambda>e. (lt_timestamp e + 5, lt_timestamp e + 60)) laughTimestamps
   \<and> map td_laughTimestamp (startTargetedAnalysis videoId videoUrl laughTimestamps clock)
     = laughTimestamps"
  by (simp add: startTargetedAnalysis_def startTargetedAnalysis_from_window
        startTargetedAnalysis_from_events)

theorem targeted_window_witness:
  "map window (startTargetedAnalysis ''v'' ''u'' [laugh_at_42, laugh_at_42] (steady 0))
     = [(47, 102), (47, 102)]"
  using targeted_window [of "''v''" "''u''" "[laugh_at_42, laugh_at_42]" "steady 0"]
  by (simp add: laugh_at_42_def)

section \<open>The life of a process record\<close>

lemma invariant_created: "lifecycle_invariant (NotStarted, new_process ident type now)"
  by (simp add: lifecycle_invariant_def end_time_iff_terminal_def terminal_def new_process_def)

lemma invariant_step:
  assumes "lifecycle_invariant s" and "run_step s s'"
  shows "lifecycle_invariant s'"
  using assms(2,1)
  by (cases rule: run_step.cases)
     (auto simp: lifecycle_invariant_def end_time_iff_terminal_def terminal_def run_begin_def
        runFullVideoAnalysis_end_def runAudioAnalysis_end_def runTranscriptAnalysis_end_def
        runTargetedVideoAnalysis_end_def run_completed_def run_failed_def
        split: sum.splits)

lemma reachable_invariant: "reachable s \<Longrightarrow> lifecycle_invariant s"
  by (induction rule: reachable.induct) (auto intro: invariant_created invariant_step)

lemma no_step_after_return: "run_step (Returned, p) s' \<Longrightarrow> False"
  by (erule run_step.cases) simp_all

lemma terminal_is_returned:
  assumes "lifecycle_invariant s" and "terminal (snd s)"
  shows "fst s = Returned"
  using assms by (cases "fst s") (auto simp: lifecycle_invariant_def terminal_def)

lemma terminal_final:
  assumes "lifecycle_invariant s" and "terminal (snd s)" and "run_step\<^sup>*\<^sup>* s s'"
  shows "s' = s"
proof -
  have "fst s = Returned" using assms(1,2) by (rule terminal_is_returned)
  then have "\<And>u. \<not> run_step s u"
    using no_step_after_return [of "snd s"] by (cases s) auto
  with assms(3) show ?thesis by (auto elim: converse_rtranclpE)
qed

lemma audio_run_reachable:
  "reachable (Returned,
     runAudioAnalysis_end (run_begin (new_process (AudioId ''v'' 0) Audio 0))
       (Inr \<lparr>aa_laughterPeaks = [], aa_suspiciousAudioSegments = []\<rparr>) 7)"
proof -
  have "reachable (NotStarted, new_process (AudioId ''v'' 0) Audio 0)"
    by (rule reachable.created)
  then have "reachable (AwaitingAdapter, run_begin (new_process (AudioId ''v'' 0) Audio 0))"
    by (rule reachable.step) (rule run_step.start)
  then show ?thesis
    by (rule reachable.step) (rule run_step.audio)
qed

text \<open>
  Claim C9. In every state that a process record reaches, from its creation through
  the steps of its run function, the end time is set if and only if the status is
  completed or failed; a record in a terminal state is not changed by any further step;
  and every step of a run function preserves the invariant.
\<close>

theorem process_lifecycle:
  "(reachable s \<longrightarrow> end_time_iff_terminal (snd s) \<and> lifecycle_invariant s)
   \<and> (reachable s \<and> terminal (snd s) \<longrightarrow> (\<forall>s'. run_step\<^sup>*\<^sup>* s s' \<longrightarrow> s' = s))
   \<and> (lifecycle_invariant s \<and> run_step s s' \<longrightarrow>
        lifecycle_invariant s' \<and> end_time_iff_terminal (snd s'))"
proof (intro conjI impI allI)
  assume "reachable s"
  then show "lifecycle_invariant s" by (rule reachable_invariant)
  then show "end_time_iff_terminal (snd s)" by (simp add: lifecycle_invariant_def)
next
  fix u
  assume "reachable s \<and> terminal (snd s)" and "run_step\<^sup>*\<^sup>* s u"
  then show "u = s" using reachable_invariant terminal_final by blast
next
  assume "lifecycle_invariant s \<and> run_step s s'"
  then show "lifecycle_invariant s'" using invariant_step by blast
  then show "end_time_iff_terminal (snd s')" by (simp add: lifecycle_invariant_def)
qed

theorem process_lifecycle_witness:
  "reachable (Returned,
     runAudioAnalysis_end (run_begin (new_process (AudioId ''v'' 0) Audio 0))
       (Inr \<lparr>aa_laughterPeaks = [], aa_suspiciousAudioSegments = []\<rparr>) 7)
   \<and> p_status (runAudioAnalysis_end (run_begin (new_process (AudioId ''v'' 0) Audio 0))
       (Inr \<lparr>aa_laughterPeaks = [], aa_suspiciousAudioSegments = []\<rparr>) 7) = Completed
   \<and> p_endTime (runAudioAnalysis_end (run_begin (new_process (AudioId ''v'' 0) Audio 0))
       (Inr \<lparr>aa_laughterPeaks = [], aa_suspiciousAudioSegments = []\<rparr>) 7) = Some 7
   \<and> end_time_iff_terminal (runAudioAnalysis_end (run_begin (new_process (AudioId ''v'' 0) Audio 0))
       (Inr \<lparr>aa_laughterPeaks = [], aa_suspiciousAudioSegments = []\<rparr>) 7)
   \<and> lifecycle_invariant (AwaitingAdapter, run_begin (new_process (AudioId ''v'' 0) Audio 0))"
  using process_lifecycle [of "(Returned,
     runAudioAnalysis_end (run_begin (new_process (AudioId ''v'' 0) Audio 0))
       (Inr \<lparr>aa_laughterPeaks = [], aa_suspiciousAudioSegments = []\<rparr>) 7)"]
    process_lifecycle [of "(NotStarted, new_process (AudioId ''v'' 0) Audio 0)"
      "(AwaitingAdapter, run_begin (new_process (AudioId ''v'' 0) Audio 0))"]
    audio_run_reachable invariant_created [of "AudioId ''v'' 0" Audio 0]
    run_step.start [of "new_process (AudioId ''v'' 0) Audio 0"]
  by (simp add: runAudioAnalysis_end_def run_completed_def run_begin_def new_process_def)

section \<open>The adapters when the provider fails\<close>

text \<open>
  Claim C8, as stated, fails for the frame-scan adapter. When the download of the video
  throws, \<open>analyzeVideo\<close> throws the same error again and returns no result.
\<close>

theorem frame_scan_counterexample:
  "analyzeVideo basic_latin_uc (Inl ''provider unreachable'') (steady []) (steady (Inr ())) ''v''
     = Inl ''provider unreachable''
   \<and> analyzeVideo basic_latin_uc (Inl ''provider unreachable'') (steady []) (steady (Inr ())) ''v''
     \<noteq> Inr \<lparr>va_giftCodes = [], va_frameAnalysis = []\<rparr>"
  by (simp add: analyzeVideo_def try_catch_def and_then_def)

text \<open>
  Claim C8, amended. The audio adapter and the transcript adapter return their empty
  result when the provider call throws, and never throw. The frame-scan adapter logs the
  error and throws it again; \<open>runFullVideoAnalysis\<close> catches it and marks the process
  failed with the message of the error, and for a targeted scan the coordinator's
  \<open>analyzeVideoSegment\<close> catches it and returns empty lists.
\<close>

theorem adapters_on_failure:
  "analyzeAudio (Inl e) detectLaughterPeaks analyzeSuspiciousSegments cleanup
     = Inr \<lparr>aa_laughterPeaks = [], aa_suspiciousAudioSegments = []\<rparr>
   \<and> (\<exists>r. analyzeAudio extractAudio detectLaughterPeaks analyzeSuspiciousSegments cleanup = Inr r)
   \<and> analyzeTranscript (Inl e) captionsDownload parseTranscript = Inr empty_transcript
   \<and> analyzeTranscript captionsList (steady (Inl e)) parseTranscript = Inr empty_transcript
   \<and> (\<exists>r. analyzeTranscript captionsList captionsDownload parseTranscript = Inr r)
   \<and> analyzeVideo uc (Inl e) analyzeFrames cleanup videoId = Inl e
   \<and> p_status (runFullVideoAnalysis_end uc p videoId
        (analyzeVideo uc (Inl e) analyzeFrames cleanup videoId) now) = Failed
   \<and> p_error (runFullVideoAnalysis_end uc p videoId
        (analyzeVideo uc (Inl e) analyzeFrames cleanup videoId) now) = Some e
   \<and> analyzeVideoSegment (VideoAnalyzer_analyzeVideoSegment uc (Inl e) analyzeFrames cleanup videoId)
     = \<lparr>va_giftCodes = [], va_frameAnalysis = []\<rparr>"
proof (intro conjI)
  show "analyzeAudio (Inl e) detectLaughterPeaks analyzeSuspiciousSegments cleanup
     = Inr \<lparr>aa_laughterPeaks = [], aa_suspiciousAudioSegments = []\<rparr>"
    by (simp add: analyzeAudio_def try_catch_def and_then_def)
  show "\<exists>r. analyzeAudio extractAudio detectLaughterPeaks analyzeSuspiciousSegments cleanup = Inr r"
    by (simp add: analyzeAudio_def try_catch_def split: sum.splits)
  show "analyzeTranscript (Inl e) captionsDownload parseTranscript = Inr empty_transcript"
    by (simp add: analyzeTranscript_def getVideoTranscript_def try_catch_def)
  show "analyzeTranscript captionsList (steady (Inl e)) parseTranscript = Inr empty_transcript"
    by (simp add: analyzeTranscript_def getVideoTranscript_def try_catch_def steady_def Let_def
          split: sum.splits list.splits option.splits)
  show "\<exists>r. analyzeTranscript captionsList captionsDownload parseTranscript = Inr r"
    by (simp add: analyzeTranscript_def try_catch_def split: sum.splits)
  show "analyzeVideo uc (Inl e) analyzeFrames cleanup videoId = Inl e"
    by (simp add: analyzeVideo_def try_catch_def and_then_def)
  then show "p_status (runFullVideoAnalysis_end uc p videoId
        (analyzeVideo uc (Inl e) analyzeFrames cleanup videoId) now) = Failed"
    and "p_error (runFullVideoAnalysis_end uc p videoId
        (analyzeVideo uc (Inl e) analyzeFrames cleanup videoId) now) = Some e"
    by (simp_all add: runFullVideoAnalysis_end_def run_failed_def)
  show "analyzeVideoSegment (VideoAnalyzer_analyzeVideoSegment uc (Inl e) analyzeFrames cleanup videoId)
     = \<lparr>va_giftCodes = [], va_frameAnalysis = []\<rparr>"
    by (simp add: analyzeVideoSegment_def VideoAnalyzer_analyzeVideoSegment_def try_catch_def
          and_then_def)
qed

theorem adapters_on_failure_witness:
  "analyzeAudio (Inl ''provider unreachable'') (steady []) (steady []) (steady (Inr ()))
     = Inr \<lparr>aa_laughterPeaks = [], aa_suspiciousAudioSegments = []\<rparr>
   \<and> analyzeTranscript (Inl ''provider unreachable'') (steady (Inr ''text'')) (steady [])
     = Inr empty_transcript
   \<and> p_status (runFullVideoAnalysis_end basic_latin_uc
        (run_begin (new_process (FullVideoId ''v'' 0) FullVideo 0))
        ''v'' (analyzeVideo basic_latin_uc (Inl ''provider unreachable'') (steady []) (steady (Inr ())) ''v'') 7)
     = Failed"
  using adapters_on_failure [where e = "''provider unreachable''" and uc = basic_latin_uc
          and detectLaughterPeaks = "steady []" and analyzeSuspiciousSegments = "steady []"
          and cleanup = "steady (Inr ())" and captionsDownload = "steady (Inr ''text'')"
          and parseTranscript = "steady []" and analyzeFrames = "steady []"
          and videoId = "''v''" and extractAudio = "Inl ''provider unreachable''"
          and captionsList = "Inl ''provider unreachable''"
          and p = "run_begin (new_process (FullVideoId ''v'' 0) FullVideo 0)" and now = 7]
  by blast

end
